theory Spec2Isabelle
  imports Complex_Main "HOL-Library.AList"
begin

section \<open>Python dictionaries\<close>

text \<open>
  A Python \<^verbatim>\<open>dict\<close> is an association list in insertion order; a well-formed one has
  pairwise distinct keys. Iterating a dictionary visits its entries from left to right.
  \<^item> \<open>dict_get d k v\<close> is \<^verbatim>\<open>d.get(k, v)\<close>;
  \<^item> \<open>dict_item d k\<close> is \<^verbatim>\<open>d[k]\<close>, which raises \<^verbatim>\<open>KeyError\<close> on a missing key;
  \<^item> \<open>dict_setitem k v d\<close> is \<^verbatim>\<open>d[k] = v\<close>: an existing key keeps its position,
    a new key goes to the end;
  \<^item> \<open>dict_update d other\<close> is \<^verbatim>\<open>d.update(other)\<close>.

  An exception is a value of type \<open>error\<close>, and a function that may raise returns
  \<open>error + 'a\<close>, with \<open>Inl\<close> for the exception. \<open>OtherError\<close> stands for the exceptions that
  only the environments and agents can raise.
\<close>

type_synonym ('k, 'v) dict = "('k \<times> 'v) list"

datatype error =
    ValueError string
  | AssertionError
  | AttributeError string
  | KeyError string
  | ZeroDivisionError
  | NotImplementedError
  | OtherError string

definition keys :: "('k, 'v) dict \<Rightarrow> 'k list" where
  "keys d = map fst d"

definition dict_get :: "('k, 'v) dict \<Rightarrow> 'k \<Rightarrow> 'v \<Rightarrow> 'v" where
  "dict_get d k v = (case map_of d k of None \<Rightarrow> v | Some x \<Rightarrow> x)"

definition dict_item :: "(string, 'v) dict \<Rightarrow> string \<Rightarrow> error + 'v" where
  "dict_item d k = (case map_of d k of None \<Rightarrow> Inl (KeyError k) | Some x \<Rightarrow> Inr x)"

definition dict_setitem :: "'k \<Rightarrow> 'v \<Rightarrow> ('k, 'v) dict \<Rightarrow> ('k, 'v) dict" where
  "dict_setitem k v d = AList.update k v d"

definition dict_update :: "('k, 'v) dict \<Rightarrow> ('k, 'v) dict \<Rightarrow> ('k, 'v) dict" where
  "dict_update d other = foldl (\<lambda>acc (k, v). dict_setitem k v acc) d other"

section \<open>StepOutcome\<close>

text \<open>
  The outcome of one step for one participant (the field \<^verbatim>\<open>done\<close> is \<open>done_flag\<close>
  here). A reward is \<open>None\<close> where Python has \<^verbatim>\<open>None\<close>; the info dictionary has
  string keys.
\<close>

record ('o, 'r, 'i) StepOutcome =
  observation :: 'o
  reward :: "'r option"
  done_flag :: bool
  info :: "(string, 'i) dict"

text \<open>The constructor: a missing (\<^verbatim>\<open>None\<close>) info becomes the empty dictionary.\<close>

definition StepOutcome_init ::
  "'o \<Rightarrow> 'r option \<Rightarrow> bool \<Rightarrow> (string, 'i) dict option \<Rightarrow> ('o, 'r, 'i) StepOutcome" where
  "StepOutcome_init ob rw dn infs =
     \<lparr>observation = ob, reward = rw, done_flag = dn,
      info = (case infs of None \<Rightarrow> [] | Some i \<Rightarrow> i)\<rparr>"

text \<open>\<^verbatim>\<open>__iter__\<close>: the outcome as the 4-tuple handed to \<^verbatim>\<open>act(*outcome)\<close>.\<close>

definition StepOutcome_iter ::
  "('o, 'r, 'i) StepOutcome \<Rightarrow> 'o \<times> 'r option \<times> bool \<times> (string, 'i) dict" where
  "StepOutcome_iter oc = (observation oc, reward oc, done_flag oc, info oc)"

text \<open>The ray-like multi-agent return type: observations, rewards, done flags, infos.\<close>

type_synonym ('o, 'r, 'i) StepReturn =
  "(string, 'o) dict \<times> (string, 'r option) dict \<times> (string, bool) dict
     \<times> (string, (string, 'i) dict) dict"

text \<open>
  \<^verbatim>\<open>from_multiagent_step\<close>: the comprehension runs over the keys of \<open>obs\<close> and reads
  \<open>obs[agent]\<close>, which is the value paired with the key.
\<close>

definition from_multiagent_step ::
  "(string, 'o) dict \<Rightarrow> (string, 'r option) dict \<Rightarrow> (string, bool) dict
     \<Rightarrow> (string, (string, 'i) dict) dict
     \<Rightarrow> (string, ('o, 'r, 'i) StepOutcome) dict \<times> bool" where
  "from_multiagent_step obs rew dn infs =
     (let outcomes =
        map (\<lambda>(agent, ob).
               (agent, StepOutcome_init ob (dict_get rew agent None)
                         (dict_get dn agent (dict_get dn ''__all__'' False))
                         (Some (dict_get infs agent []))))
            obs
      in (outcomes, dict_get dn ''__all__'' False))"

text \<open>
  \<^verbatim>\<open>to_multiagent_step\<close>: one comprehension over \<open>outcomes.items()\<close> per field name, then
  \<open>done_dict["__all__"] = done\<close>.
\<close>

definition to_multiagent_step ::
  "(string, ('o, 'r, 'i) StepOutcome) dict \<Rightarrow> bool \<Rightarrow> ('o, 'r, 'i) StepReturn" where
  "to_multiagent_step outcomes dn =
     (let obs = map (\<lambda>(agent, outcome). (agent, observation outcome)) outcomes;
          rew = map (\<lambda>(agent, outcome). (agent, reward outcome)) outcomes;
          done_dict = map (\<lambda>(agent, outcome). (agent, done_flag outcome)) outcomes;
          infs = map (\<lambda>(agent, outcome). (agent, info outcome)) outcomes;
          done_dict = dict_setitem ''__all__'' dn done_dict
      in (obs, rew, done_dict, infs))"

section \<open>The collaborators: environments and agents\<close>

text \<open>
  An environment or an agent is a Python object with a state of its own. The model passes
  that state explicitly: \<open>'e\<close> is the type of environment states, \<open>'g\<close> the type of agent
  states, and the methods of the concrete classes are the fields of the records below.
  A method that mutates its object returns the new state next to its result, \<^verbatim>\<open>copy\<close>
  returns the state of the new object and leaves the original as it is, and a method that
  raises returns \<open>Inl\<close> of the exception (on the abstract classes \<^verbatim>\<open>MultiAgentEnv\<close> and
  \<^verbatim>\<open>Agent\<close> that is \<open>NotImplementedError\<close> for \<^verbatim>\<open>reset\<close>, \<^verbatim>\<open>step\<close>, \<^verbatim>\<open>copy\<close> and
  \<^verbatim>\<open>act\<close>). The state of an object after one of its methods has raised is not modelled.
  Agents stored under different names are different objects.
\<close>

record ('e, 'o, 'a, 'r, 'i, 's) MultiAgentEnv =
  env_reset :: "'e \<Rightarrow> error + ((string, 'o) dict \<times> 'e)"
  env_step :: "'e \<Rightarrow> (string, 'a) dict \<Rightarrow> error + (('o, 'r, 'i) StepReturn \<times> 'e)"
  env_copy :: "'e \<Rightarrow> error + 'e"
  env_agent_names :: "'e \<Rightarrow> string list"
  env_observation_space :: "'e \<Rightarrow> 's"
  env_action_space :: "'e \<Rightarrow> 's"

record ('g, 'o, 'a, 'r, 'i) Agent =
  agent_act :: "'g \<Rightarrow> 'o \<Rightarrow> 'r option \<Rightarrow> bool \<Rightarrow> (string, 'i) dict \<Rightarrow> error + ('a \<times> 'g)"
  agent_reset :: "'g \<Rightarrow> error + 'g"
  agent_copy :: "'g \<Rightarrow> error + 'g"

text \<open>
  The class \<^verbatim>\<open>Agent\<close> itself: \<^verbatim>\<open>act\<close> raises, \<^verbatim>\<open>reset\<close> does nothing and \<^verbatim>\<open>copy\<close>
  builds a fresh instance, which has no state.
\<close>

definition Agent_base :: "(unit, 'o, 'a, 'r, 'i) Agent" where
  "Agent_base =
     \<lparr>agent_act = (\<lambda>self ob rw dn infs. Inl NotImplementedError),
      agent_reset = (\<lambda>self. Inr self),
      agent_copy = (\<lambda>self. Inr ())\<rparr>"

section \<open>PartialMultiAgentEnv\<close>

text \<open>
  The fields \<^verbatim>\<open>env\<close>, \<^verbatim>\<open>agents\<close>, \<^verbatim>\<open>agent_names\<close>, \<^verbatim>\<open>observation_space\<close>,
  \<^verbatim>\<open>action_space\<close> and \<^verbatim>\<open>_agents_outcome\<close> of the wrapper, prefixed with \<open>pm_\<close>.
\<close>

record ('e, 'g, 'o, 'r, 'i, 's) PartialMultiAgentEnv =
  pm_env :: 'e
  pm_agents :: "(string, 'g) dict"
  pm_agent_names :: "string list"
  pm_observation_space :: 's
  pm_action_space :: 's
  pm_agents_outcome :: "(string, ('o, 'r, 'i) StepOutcome) dict"

text \<open>\<open>copy_agents\<close> is \<^verbatim>\<open>{name: agent.copy() for name, agent in agents.items()}\<close>.\<close>

fun copy_agents ::
  "('g, 'o, 'a, 'r, 'i) Agent \<Rightarrow> (string, 'g) dict \<Rightarrow> error + (string, 'g) dict" where
  "copy_agents agc [] = Inr []"
| "copy_agents agc ((name, agent) # rest) =
     (case agent_copy agc agent of
        Inl err \<Rightarrow> Inl err
      | Inr agent' \<Rightarrow>
          (case copy_agents agc rest of
             Inl err \<Rightarrow> Inl err
           | Inr rest' \<Rightarrow> Inr ((name, agent') # rest')))"

text \<open>
  \<^verbatim>\<open>__init__\<close>: the environment is copied, the agents are copied, the copy of the
  environment is reset and the observations of that reset are dropped; then the names are
  checked against the \<^verbatim>\<open>agent_names\<close> of the environment that was passed in. The message
  of the \<^verbatim>\<open>ValueError\<close> is kept without the printed set of names.
\<close>

definition PartialMultiAgentEnv_init ::
  "('e, 'o, 'a, 'r, 'i, 's) MultiAgentEnv \<Rightarrow> ('g, 'o, 'a, 'r, 'i) Agent \<Rightarrow> 'e
     \<Rightarrow> (string, 'g) dict \<Rightarrow> error + ('e, 'g, 'o, 'r, 'i, 's) PartialMultiAgentEnv" where
  "PartialMultiAgentEnv_init envc agc env agents =
     (case env_copy envc env of
        Inl err \<Rightarrow> Inl err
      | Inr self_env \<Rightarrow>
          (case copy_agents agc agents of
             Inl err \<Rightarrow> Inl err
           | Inr self_agents \<Rightarrow>
               (case env_reset envc self_env of
                  Inl err \<Rightarrow> Inl err
                | Inr (obs, self_env) \<Rightarrow>
                    if set (keys agents) - set (env_agent_names envc env) \<noteq> {}
                    then Inl (ValueError ''Unkwnon agents'')
                    else Inr \<lparr>pm_env = self_env,
                              pm_agents = self_agents,
                              pm_agent_names =
                                filter (\<lambda>an. an \<notin> set (keys agents)) (env_agent_names envc env),
                              pm_observation_space = env_observation_space envc env,
                              pm_action_space = env_action_space envc env,
                              pm_agents_outcome = []\<rparr>)))"

text \<open>\<^verbatim>\<open>MultiAgentEnv.with_agent\<close>.\<close>

definition with_agent ::
  "('e, 'o, 'a, 'r, 'i, 's) MultiAgentEnv \<Rightarrow> ('g, 'o, 'a, 'r, 'i) Agent \<Rightarrow> 'e
     \<Rightarrow> (string, 'g) dict \<Rightarrow> error + ('e, 'g, 'o, 'r, 'i, 's) PartialMultiAgentEnv" where
  "with_agent envc agc self agents = PartialMultiAgentEnv_init envc agc self agents"

text \<open>
  \<open>dict_select d names\<close> is the comprehension \<^verbatim>\<open>{name: d[name] for name in names}\<close>: the
  first name that \<open>d\<close> lacks raises \<^verbatim>\<open>KeyError\<close>.
\<close>

fun dict_select :: "(string, 'v) dict \<Rightarrow> string list \<Rightarrow> error + (string, 'v) dict" where
  "dict_select d [] = Inr []"
| "dict_select d (name # names) =
     (case dict_item d name of
        Inl err \<Rightarrow> Inl err
      | Inr v \<Rightarrow>
          (case dict_select d names of
             Inl err \<Rightarrow> Inl err
           | Inr rest \<Rightarrow> Inr ((name, v) # rest)))"

text \<open>
  \<open>not_delegated agents outcomes\<close> is
  \<^verbatim>\<open>{name: outcomes[name] for name in outcomes if name not in agents}\<close>.
\<close>

definition not_delegated ::
  "(string, 'g) dict \<Rightarrow> (string, 'v) dict \<Rightarrow> (string, 'v) dict" where
  "not_delegated agents outcomes = filter (\<lambda>(name, v). name \<notin> set (keys agents)) outcomes"

definition PartialMultiAgentEnv_reset ::
  "('e, 'o, 'a, 'r, 'i, 's) MultiAgentEnv \<Rightarrow> ('e, 'g, 'o, 'r, 'i, 's) PartialMultiAgentEnv
     \<Rightarrow> error + ((string, 'o) dict \<times> ('e, 'g, 'o, 'r, 'i, 's) PartialMultiAgentEnv)" where
  "PartialMultiAgentEnv_reset envc self =
     (case env_reset envc (pm_env self) of
        Inl err \<Rightarrow> Inl err
      | Inr (obs, env') \<Rightarrow>
          (let outcomes = fst (from_multiagent_step obs [] [] [])
           in case dict_select outcomes (keys (pm_agents self)) of
                Inl err \<Rightarrow> Inl err
              | Inr cache \<Rightarrow>
                  Inr (map (\<lambda>(name, outcome). (name, observation outcome))
                         (not_delegated (pm_agents self) outcomes),
                       self\<lparr>pm_env := env', pm_agents_outcome := cache\<rparr>)))"

text \<open>
  The first line of \<^verbatim>\<open>step\<close>: every cached outcome is given to the agent stored under
  its name, in the order of the cache; the agent's new state replaces the old one, and the
  action is stored under the name in the dictionary being built (\<open>acts\<close>, empty at first).
\<close>

fun delegated_actions ::
  "('g, 'o, 'a, 'r, 'i) Agent \<Rightarrow> (string, 'g) dict \<Rightarrow> (string, 'a) dict
     \<Rightarrow> (string, ('o, 'r, 'i) StepOutcome) dict
     \<Rightarrow> error + ((string, 'a) dict \<times> (string, 'g) dict)" where
  "delegated_actions agc agents acts [] = Inr (acts, agents)"
| "delegated_actions agc agents acts ((name, outcome) # rest) =
     (case dict_item agents name of
        Inl err \<Rightarrow> Inl err
      | Inr agent \<Rightarrow>
          (let (ob, rw, dn, infs) = StepOutcome_iter outcome
           in case agent_act agc agent ob rw dn infs of
                Inl err \<Rightarrow> Inl err
              | Inr (action, agent') \<Rightarrow>
                  delegated_actions agc (dict_setitem name agent' agents)
                    (dict_setitem name action acts) rest))"

text \<open>The first two lines of \<^verbatim>\<open>step\<close>: the action dictionary given to the environment.\<close>

definition full_action_dict ::
  "('g, 'o, 'a, 'r, 'i) Agent \<Rightarrow> ('e, 'g, 'o, 'r, 'i, 's) PartialMultiAgentEnv
     \<Rightarrow> (string, 'a) dict \<Rightarrow> error + ((string, 'a) dict \<times> (string, 'g) dict)" where
  "full_action_dict agc self action_dict =
     (case delegated_actions agc (pm_agents self) [] (pm_agents_outcome self) of
        Inl err \<Rightarrow> Inl err
      | Inr (acts, agents') \<Rightarrow> Inr (dict_update acts action_dict, agents'))"

text \<open>
  The rest of \<^verbatim>\<open>step\<close>, from the call of the environment on; \<open>agents'\<close> are the agents
  after they have acted.
\<close>

definition step_with ::
  "('e, 'o, 'a, 'r, 'i, 's) MultiAgentEnv \<Rightarrow> ('e, 'g, 'o, 'r, 'i, 's) PartialMultiAgentEnv
     \<Rightarrow> (string, 'a) dict \<Rightarrow> (string, 'g) dict
     \<Rightarrow> error + (('o, 'r, 'i) StepReturn \<times> ('e, 'g, 'o, 'r, 'i, 's) PartialMultiAgentEnv)" where
  "step_with envc self actions agents' =
     (case env_step envc (pm_env self) actions of
        Inl err \<Rightarrow> Inl err
      | Inr ((obs, rew, dn, infs), env') \<Rightarrow>
          (let (outcomes, all_done) = from_multiagent_step obs rew dn infs
           in case dict_select outcomes (keys agents') of
                Inl err \<Rightarrow> Inl err
              | Inr cache \<Rightarrow>
                  Inr (to_multiagent_step (not_delegated agents' outcomes) all_done,
                       self\<lparr>pm_env := env', pm_agents := agents',
                            pm_agents_outcome := cache\<rparr>)))"

definition PartialMultiAgentEnv_step ::
  "('e, 'o, 'a, 'r, 'i, 's) MultiAgentEnv \<Rightarrow> ('g, 'o, 'a, 'r, 'i) Agent
     \<Rightarrow> ('e, 'g, 'o, 'r, 'i, 's) PartialMultiAgentEnv \<Rightarrow> (string, 'a) dict
     \<Rightarrow> error + (('o, 'r, 'i) StepReturn \<times> ('e, 'g, 'o, 'r, 'i, 's) PartialMultiAgentEnv)" where
  "PartialMultiAgentEnv_step envc agc self action_dict =
     (case full_action_dict agc self action_dict of
        Inl err \<Rightarrow> Inl err
      | Inr (actions, agents') \<Rightarrow> step_with envc self actions agents')"

definition PartialMultiAgentEnv_copy ::
  "('e, 'o, 'a, 'r, 'i, 's) MultiAgentEnv \<Rightarrow> ('g, 'o, 'a, 'r, 'i) Agent
     \<Rightarrow> ('e, 'g, 'o, 'r, 'i, 's) PartialMultiAgentEnv
     \<Rightarrow> error + ('e, 'g, 'o, 'r, 'i, 's) PartialMultiAgentEnv" where
  "PartialMultiAgentEnv_copy envc agc self =
     PartialMultiAgentEnv_init envc agc (pm_env self) (pm_agents self)"

text \<open>The wrapper is a multi-agent environment itself.\<close>

definition PartialMultiAgentEnv_class ::
  "('e, 'o, 'a, 'r, 'i, 's) MultiAgentEnv \<Rightarrow> ('g, 'o, 'a, 'r, 'i) Agent
     \<Rightarrow> (('e, 'g, 'o, 'r, 'i, 's) PartialMultiAgentEnv, 'o, 'a, 'r, 'i, 's) MultiAgentEnv" where
  "PartialMultiAgentEnv_class envc agc =
     \<lparr>env_reset = PartialMultiAgentEnv_reset envc,
      env_step = PartialMultiAgentEnv_step envc agc,
      env_copy = PartialMultiAgentEnv_copy envc agc,
      env_agent_names = pm_agent_names,
      env_observation_space = pm_observation_space,
      env_action_space = pm_action_space\<rparr>"

section \<open>SingleAgentEnv\<close>

record ('e, 'g, 'o, 'r, 'i, 's) SingleAgentEnv =
  sa_env :: "('e, 'g, 'o, 'r, 'i, 's) PartialMultiAgentEnv"
  sa_observation_space :: 's
  sa_action_space :: 's
  sa_agent_name :: string

text \<open>
  \<^verbatim>\<open>__init__\<close>. The message of the assertion is \<^verbatim>\<open>f"... {self.agent_names}"\<close>, and
  a \<^verbatim>\<open>SingleAgentEnv\<close> has no attribute \<^verbatim>\<open>agent_names\<close>: when the condition is false,
  building the message raises \<^verbatim>\<open>AttributeError\<close> before \<^verbatim>\<open>AssertionError\<close> can be
  raised. The copy of the wrapper is built and reset, then dropped: the adapter keeps the
  wrapper it was given.
\<close>

definition SingleAgentEnv_init ::
  "('e, 'o, 'a, 'r, 'i, 's) MultiAgentEnv \<Rightarrow> ('g, 'o, 'a, 'r, 'i) Agent
     \<Rightarrow> ('e, 'g, 'o, 'r, 'i, 's) PartialMultiAgentEnv
     \<Rightarrow> error + ('e, 'g, 'o, 'r, 'i, 's) SingleAgentEnv" where
  "SingleAgentEnv_init envc agc env =
     (if length (pm_agent_names env) \<noteq> 1 then Inl (AttributeError ''agent_names'')
      else case PartialMultiAgentEnv_copy envc agc env of
             Inl err \<Rightarrow> Inl err
           | Inr self_env \<Rightarrow>
               (case PartialMultiAgentEnv_reset envc self_env of
                  Inl err \<Rightarrow> Inl err
                | Inr (obs, self_env) \<Rightarrow>
                    Inr \<lparr>sa_env = env,
                         sa_observation_space = pm_observation_space env,
                         sa_action_space = pm_action_space env,
                         sa_agent_name = hd (pm_agent_names env)\<rparr>))"

definition as_single_agent ::
  "('e, 'o, 'a, 'r, 'i, 's) MultiAgentEnv \<Rightarrow> ('g, 'o, 'a, 'r, 'i) Agent
     \<Rightarrow> ('e, 'g, 'o, 'r, 'i, 's) PartialMultiAgentEnv
     \<Rightarrow> error + ('e, 'g, 'o, 'r, 'i, 's) SingleAgentEnv" where
  "as_single_agent envc agc self = SingleAgentEnv_init envc agc self"

definition SingleAgentEnv_reset ::
  "('e, 'o, 'a, 'r, 'i, 's) MultiAgentEnv \<Rightarrow> ('e, 'g, 'o, 'r, 'i, 's) SingleAgentEnv
     \<Rightarrow> error + ('o \<times> ('e, 'g, 'o, 'r, 'i, 's) SingleAgentEnv)" where
  "SingleAgentEnv_reset envc self =
     (case PartialMultiAgentEnv_reset envc (sa_env self) of
        Inl err \<Rightarrow> Inl err
      | Inr (obs, env') \<Rightarrow>
          (case dict_item obs (sa_agent_name self) of
             Inl err \<Rightarrow> Inl err
           | Inr ob \<Rightarrow> Inr (ob, self\<lparr>sa_env := env'\<rparr>)))"

definition SingleAgentEnv_step ::
  "('e, 'o, 'a, 'r, 'i, 's) MultiAgentEnv \<Rightarrow> ('g, 'o, 'a, 'r, 'i) Agent
     \<Rightarrow> ('e, 'g, 'o, 'r, 'i, 's) SingleAgentEnv \<Rightarrow> 'a
     \<Rightarrow> error + (('o \<times> 'r option \<times> bool \<times> (string, 'i) dict)
                  \<times> ('e, 'g, 'o, 'r, 'i, 's) SingleAgentEnv)" where
  "SingleAgentEnv_step envc agc self action =
     (let an = sa_agent_name self
      in case PartialMultiAgentEnv_step envc agc (sa_env self) [(an, action)] of
           Inl err \<Rightarrow> Inl err
         | Inr ((obs, rew, dn, infs), env') \<Rightarrow>
             (case dict_item obs an of
                Inl err \<Rightarrow> Inl err
              | Inr ob \<Rightarrow>
                  (case dict_item rew an of
                     Inl err \<Rightarrow> Inl err
                   | Inr rw \<Rightarrow>
                       (case dict_item dn an of
                          Inl err \<Rightarrow> Inl err
                        | Inr d \<Rightarrow>
                            (case dict_item dn ''__all__'' of
                               Inl err \<Rightarrow> Inl err
                             | Inr d_all \<Rightarrow>
                                 Inr ((ob, rw, d \<or> d_all, dict_get infs an []),
                                      self\<lparr>sa_env := env'\<rparr>))))))"

definition SingleAgentEnv_copy ::
  "('e, 'o, 'a, 'r, 'i, 's) MultiAgentEnv \<Rightarrow> ('g, 'o, 'a, 'r, 'i) Agent
     \<Rightarrow> ('e, 'g, 'o, 'r, 'i, 's) SingleAgentEnv
     \<Rightarrow> error + ('e, 'g, 'o, 'r, 'i, 's) SingleAgentEnv" where
  "SingleAgentEnv_copy envc agc self =
     (case PartialMultiAgentEnv_copy envc agc (sa_env self) of
        Inl err \<Rightarrow> Inl err
      | Inr c \<Rightarrow> SingleAgentEnv_init envc agc c)"

text \<open>The adapter is a classic (gym) environment: \<^verbatim>\<open>reset\<close> and \<^verbatim>\<open>step\<close> of \<^verbatim>\<open>gym.Env\<close>.\<close>

record ('e, 'o, 'a, 'r, 'i) GymEnv =
  gym_reset :: "'e \<Rightarrow> error + ('o \<times> 'e)"
  gym_step :: "'e \<Rightarrow> 'a \<Rightarrow> error + (('o \<times> 'r option \<times> bool \<times> (string, 'i) dict) \<times> 'e)"

definition SingleAgentEnv_class ::
  "('e, 'o, 'a, 'r, 'i, 's) MultiAgentEnv \<Rightarrow> ('g, 'o, 'a, 'r, 'i) Agent
     \<Rightarrow> (('e, 'g, 'o, 'r, 'i, 's) SingleAgentEnv, 'o, 'a, 'r, 'i) GymEnv" where
  "SingleAgentEnv_class envc agc =
     \<lparr>gym_reset = SingleAgentEnv_reset envc,
      gym_step = SingleAgentEnv_step envc agc\<rparr>"

section \<open>Floating-point numbers\<close>

text \<open>
  A Python number, \<^verbatim>\<open>int\<close> or \<^verbatim>\<open>float\<close>, is the rational number it denotes. A \<^verbatim>\<open>float\<close>
  is an IEEE 754 binary64 number: a multiple of a power of two with a significand of 53
  bits. \<open>fl q\<close> is the float nearest to \<open>q\<close>, the even significand winning a tie; it is
  what \<^verbatim>\<open>float(n)\<close> gives for an integer \<open>n\<close>, and the float operations are the exact
  ones followed by \<open>fl\<close>: \<^verbatim>\<open>a + b\<close> is \<open>fl (a + b)\<close> and \<^verbatim>\<open>a / b\<close> is \<open>fl (a / b)\<close>. Numbers
  beyond the range of the normal floats (overflow to infinity, subnormal numbers) are not
  modelled.
  \<^item> \<open>bit_length n\<close> is the number of binary digits of a positive integer;
  \<^item> \<open>pow2 e\<close> is \<open>2\<close> to the power \<open>e\<close>, for any integer \<open>e\<close>;
  \<^item> \<open>ilog2 q\<close>, for \<open>q > 0\<close>, is the exponent \<open>e\<close> with \<open>pow2 e \<le> q < pow2 (e + 1)\<close>;
  \<^item> \<open>round_even x\<close> is the integer nearest to \<open>x \<ge> 0\<close>, the even one at a tie.
\<close>

function bit_length :: "int \<Rightarrow> nat" where
  "bit_length n = (if n \<le> 0 then 0 else Suc (bit_length (n div 2)))"
  by pat_completeness auto
termination
  by (relation "measure nat") auto

declare bit_length.simps [simp del]

definition pow2 :: "int \<Rightarrow> rat" where
  "pow2 e = (if 0 \<le> e then 2 ^ nat e else 1 / 2 ^ nat (- e))"

definition ilog2 :: "rat \<Rightarrow> int" where
  "ilog2 q = (if 1 \<le> q then int (bit_length \<lfloor>q\<rfloor>) - 1
              else - int (bit_length (\<lceil>1 / q\<rceil> - 1)))"

definition round_even :: "rat \<Rightarrow> int" where
  "round_even x =
     (let n = \<lfloor>x\<rfloor>; f = x - of_int n
      in if f < 1 / 2 then n else if 1 / 2 < f then n + 1 else if even n then n else n + 1)"

definition fl :: "rat \<Rightarrow> rat" where
  "fl q =
     (if q = 0 then 0
      else let e = ilog2 \<bar>q\<bar> - 52; m = round_even (\<bar>q\<bar> / pow2 e)
           in sgn q * of_int m * pow2 e)"

section \<open>EnvironmentRunner\<close>

text \<open>
  Rewards are numbers, and the sums and means of rewards are floats. \<^verbatim>\<open>max_step\<close> is a
  number or \<^verbatim>\<open>float("inf")\<close>.

  \<^verbatim>\<open>isinstance(self.env, gym.Env)\<close> is the constructor of \<open>env_class\<close>.
\<close>

datatype step_limit = Bounded rat | Unbounded

datatype ('e, 'o, 'a, 'i, 's) env_class =
    Gym "('e, 'o, 'a, rat, 'i) GymEnv"
  | Multi "('e, 'o, 'a, rat, 'i, 's) MultiAgentEnv"

record 'e EnvironmentRunner =
  er_env :: 'e
  er_num_repetitions :: int
  er_max_step :: step_limit

text \<open>
  The calls that the runner makes to its collaborators are recorded in program order:
  \<open>AgentReset name\<close> for \<^verbatim>\<open>agent.reset()\<close>, \<open>EnvReset\<close> for \<^verbatim>\<open>self.env.reset()\<close>,
  \<open>AgentAct name outcome\<close> for \<^verbatim>\<open>agents[name].act(*outcome)\<close>, \<open>EnvStep actions\<close> for
  \<^verbatim>\<open>self.env.step(actions)\<close> and \<open>GymStep action\<close> for \<^verbatim>\<open>self.env.step(actions[san])\<close>.
\<close>

datatype ('o, 'a, 'i) call =
    AgentReset string
  | EnvReset
  | AgentAct string "('o, rat, 'i) StepOutcome"
  | EnvStep "(string, 'a) dict"
  | GymStep 'a


fun is_act :: "('o, 'a, 'i) call \<Rightarrow> bool" where
  "is_act (AgentAct name outcome) = True"
| "is_act c = False"

definition san :: string where
  "san = ''single_agent_name''"

text \<open>The variables of \<^verbatim>\<open>_run_once\<close> that the loop changes, and the calls made so far.\<close>

record ('e, 'g, 'o, 'a, 'i) episode =
  ep_env :: 'e
  ep_agents :: "(string, 'g) dict"
  ep_outcomes :: "(string, ('o, rat, 'i) StepOutcome) dict"
  ep_done :: bool
  ep_reward_sum :: "(string, rat) dict"
  ep_step :: nat
  ep_calls :: "('o, 'a, 'i) call list"

text \<open>\<^verbatim>\<open>for agent in agents.values(): agent.reset()\<close>.\<close>

fun reset_agents ::
  "('g, 'o, 'a, rat, 'i) Agent \<Rightarrow> (string, 'g) dict \<Rightarrow> error + (string, 'g) dict" where
  "reset_agents agc [] = Inr []"
| "reset_agents agc ((name, agent) # rest) =
     (case agent_reset agc agent of
        Inl err \<Rightarrow> Inl err
      | Inr agent' \<Rightarrow>
          (case reset_agents agc rest of
             Inl err \<Rightarrow> Inl err
           | Inr rest' \<Rightarrow> Inr ((name, agent') # rest')))"

text \<open>The reset of the environment, in either shape: the outcomes, \<^verbatim>\<open>done\<close>, the new state.\<close>

definition reset_outcomes ::
  "('e, 'o, 'a, 'i, 's) env_class \<Rightarrow> 'e
     \<Rightarrow> error + ((string, ('o, rat, 'i) StepOutcome) dict \<times> bool \<times> 'e)" where
  "reset_outcomes envc env =
     (case envc of
        Gym g \<Rightarrow>
          (case gym_reset g env of
             Inl err \<Rightarrow> Inl err
           | Inr (ob, env') \<Rightarrow> Inr ([(san, StepOutcome_init ob None False None)], False, env'))
      | Multi m \<Rightarrow>
          (case env_reset m env of
             Inl err \<Rightarrow> Inl err
           | Inr (obs, env') \<Rightarrow>
               (let (outcomes, dn) = from_multiagent_step obs [] [] []
                in Inr (outcomes, dn, env'))))"

text \<open>
  \<^verbatim>\<open>for name, outcome in outcomes.items(): actions[name] = agents[name].act(*outcome)\<close>,
  with \<open>actions\<close> empty at first.
\<close>

fun select_actions ::
  "('g, 'o, 'a, rat, 'i) Agent \<Rightarrow> (string, 'g) dict \<Rightarrow> (string, 'a) dict
     \<Rightarrow> ('o, 'a, 'i) call list \<Rightarrow> (string, ('o, rat, 'i) StepOutcome) dict
     \<Rightarrow> error + ((string, 'a) dict \<times> (string, 'g) dict \<times> ('o, 'a, 'i) call list)" where
  "select_actions agc agents actions calls [] = Inr (actions, agents, calls)"
| "select_actions agc agents actions calls ((name, outcome) # rest) =
     (case dict_item agents name of
        Inl err \<Rightarrow> Inl err
      | Inr agent \<Rightarrow>
          (let (ob, rw, dn, infs) = StepOutcome_iter outcome
           in case agent_act agc agent ob rw dn infs of
                Inl err \<Rightarrow> Inl err
              | Inr (action, agent') \<Rightarrow>
                  select_actions agc (dict_setitem name agent' agents)
                    (dict_setitem name action actions)
                    (calls @ [AgentAct name outcome]) rest))"

text \<open>The step of the environment, in either shape.\<close>

definition step_outcomes ::
  "('e, 'o, 'a, 'i, 's) env_class \<Rightarrow> 'e \<Rightarrow> (string, 'a) dict
     \<Rightarrow> error + ((string, ('o, rat, 'i) StepOutcome) dict \<times> bool \<times> 'e \<times> ('o, 'a, 'i) call)" where
  "step_outcomes envc env actions =
     (case envc of
        Gym g \<Rightarrow>
          (case dict_item actions san of
             Inl err \<Rightarrow> Inl err
           | Inr action \<Rightarrow>
               (case gym_step g env action of
                  Inl err \<Rightarrow> Inl err
                | Inr ((ob, rw, dn, infs), env') \<Rightarrow>
                    (let outcome = StepOutcome_init ob rw dn (Some infs)
                     in Inr ([(san, outcome)], done_flag outcome, env', GymStep action))))
      | Multi m \<Rightarrow>
          (case env_step m env actions of
             Inl err \<Rightarrow> Inl err
           | Inr ((obs, rew, dn, infs), env') \<Rightarrow>
               (let (outcomes, dn') = from_multiagent_step obs rew dn infs
                in Inr (outcomes, dn', env', EnvStep actions))))"

text \<open>
  \<^verbatim>\<open>for name, outcome in outcomes.items(): assert outcome.reward is not None;
  reward_sum[name] += outcome.reward\<close>, on a \<^verbatim>\<open>defaultdict(float)\<close>: the sum so far is
  a float (\<^verbatim>\<open>0.0\<close> for a new name), the reward is converted to a float if it is an
  integer, and the addition is that of floats.
\<close>

fun accumulate_rewards ::
  "(string, rat) dict \<Rightarrow> (string, ('o, rat, 'i) StepOutcome) dict
     \<Rightarrow> error + (string, rat) dict" where
  "accumulate_rewards reward_sum [] = Inr reward_sum"
| "accumulate_rewards reward_sum ((name, outcome) # rest) =
     (case reward outcome of
        None \<Rightarrow> Inl AssertionError
      | Some r \<Rightarrow>
          accumulate_rewards
            (dict_setitem name (fl (dict_get reward_sum name 0 + fl r)) reward_sum) rest)"

text \<open>One pass through the body of the \<^verbatim>\<open>while\<close> loop.\<close>

definition run_cycle ::
  "('e, 'o, 'a, 'i, 's) env_class \<Rightarrow> ('g, 'o, 'a, rat, 'i) Agent
     \<Rightarrow> ('e, 'g, 'o, 'a, 'i) episode \<Rightarrow> error + ('e, 'g, 'o, 'a, 'i) episode" where
  "run_cycle envc agc s =
     (case select_actions agc (ep_agents s) [] (ep_calls s) (ep_outcomes s) of
        Inl err \<Rightarrow> Inl err
      | Inr (actions, agents', calls') \<Rightarrow>
          (case step_outcomes envc (ep_env s) actions of
             Inl err \<Rightarrow> Inl err
           | Inr (outcomes, dn, env', c) \<Rightarrow>
               (case accumulate_rewards (ep_reward_sum s) outcomes of
                  Inl err \<Rightarrow> Inl err
                | Inr reward_sum' \<Rightarrow>
                    Inr \<lparr>ep_env = env', ep_agents = agents', ep_outcomes = outcomes,
                         ep_done = dn, ep_reward_sum = reward_sum',
                         ep_step = Suc (ep_step s), ep_calls = calls' @ [c]\<rparr>)))"

text \<open>\<^verbatim>\<open>step < self.max_step\<close>.\<close>

fun below_limit :: "nat \<Rightarrow> step_limit \<Rightarrow> bool" where
  "below_limit step (Bounded q) = (of_nat step < q)"
| "below_limit step Unbounded = True"

text \<open>
  The \<^verbatim>\<open>while\<close> loop. It need not end (no step limit and an episode that is never done):
  the result is \<open>None\<close> then.
\<close>

partial_function (option) run_loop ::
  "('e, 'o, 'a, 'i, 's) env_class \<Rightarrow> ('g, 'o, 'a, rat, 'i) Agent \<Rightarrow> step_limit
     \<Rightarrow> ('e, 'g, 'o, 'a, 'i) episode \<Rightarrow> (error + ('e, 'g, 'o, 'a, 'i) episode) option" where
  "run_loop envc agc max_step s =
     (if below_limit (ep_step s) max_step \<and> \<not> ep_done s
      then (case run_cycle envc agc s of
              Inl err \<Rightarrow> Some (Inl err)
            | Inr s' \<Rightarrow> run_loop envc agc max_step s')
      else Some (Inr s))"

declare run_loop.simps [code]


text \<open>\<^verbatim>\<open>for name, outcome in outcomes.items(): agents[name].act(*outcome)\<close>.\<close>

fun final_acts ::
  "('g, 'o, 'a, rat, 'i) Agent \<Rightarrow> (string, 'g) dict \<Rightarrow> ('o, 'a, 'i) call list
     \<Rightarrow> (string, ('o, rat, 'i) StepOutcome) dict
     \<Rightarrow> error + ((string, 'g) dict \<times> ('o, 'a, 'i) call list)" where
  "final_acts agc agents calls [] = Inr (agents, calls)"
| "final_acts agc agents calls ((name, outcome) # rest) =
     (case dict_item agents name of
        Inl err \<Rightarrow> Inl err
      | Inr agent \<Rightarrow>
          (let (ob, rw, dn, infs) = StepOutcome_iter outcome
           in case agent_act agc agent ob rw dn infs of
                Inl err \<Rightarrow> Inl err
              | Inr (action, agent') \<Rightarrow>
                  final_acts agc (dict_setitem name agent' agents)
                    (calls @ [AgentAct name outcome]) rest))"

text \<open>
  What \<^verbatim>\<open>_run_once\<close> leaves behind: the returned \<^verbatim>\<open>reward_sum\<close>, the runner with its
  environment as the episode left it, the agents that were passed in (positional and named)
  as the episode left them, and the calls made.
\<close>

record ('e, 'g, 'o, 'a, 'i) run_once_result =
  ro_reward_sum :: "(string, rat) dict"
  ro_runner :: "'e EnvironmentRunner"
  ro_single_agent :: "'g list"
  ro_agents :: "(string, 'g) dict"
  ro_calls :: "('o, 'a, 'i) call list"

text \<open>The first four lines of \<^verbatim>\<open>_run_once\<close>: the agents of the episode, by name.\<close>

definition named_agents :: "'g list \<Rightarrow> (string, 'g) dict \<Rightarrow> error + (string, 'g) dict" where
  "named_agents single_agent agents =
     (if length single_agent = 1 \<and> agents = [] then Inr [(san, single_agent ! 0)]
      else if single_agent \<noteq> [] \<or> agents = []
      then Inl (ValueError ''Either provide 1 unnamed agent or several named agents'')
      else Inr agents)"

definition run_once ::
  "('e, 'o, 'a, 'i, 's) env_class \<Rightarrow> ('g, 'o, 'a, rat, 'i) Agent \<Rightarrow> 'e EnvironmentRunner
     \<Rightarrow> 'g list \<Rightarrow> (string, 'g) dict
     \<Rightarrow> (error + ('e, 'g, 'o, 'a, 'i) run_once_result) option" where
  "run_once envc agc self single_agent agents =
     (case named_agents single_agent agents of
        Inl err \<Rightarrow> Some (Inl err)
      | Inr agents1 \<Rightarrow>
          (case reset_agents agc agents1 of
             Inl err \<Rightarrow> Some (Inl err)
           | Inr agents2 \<Rightarrow>
               (case reset_outcomes envc (er_env self) of
                  Inl err \<Rightarrow> Some (Inl err)
                | Inr (outcomes, dn, env') \<Rightarrow>
                    (case run_loop envc agc (er_max_step self)
                            \<lparr>ep_env = env', ep_agents = agents2, ep_outcomes = outcomes,
                             ep_done = dn, ep_reward_sum = [], ep_step = 0,
                             ep_calls = map (\<lambda>(name, agent). AgentReset name) agents1
                                        @ [EnvReset]\<rparr> of
                       None \<Rightarrow> None
                     | Some (Inl err) \<Rightarrow> Some (Inl err)
                     | Some (Inr s) \<Rightarrow>
                         (case final_acts agc (ep_agents s) (ep_calls s) (ep_outcomes s) of
                            Inl err \<Rightarrow> Some (Inl err)
                          | Inr (agents3, calls) \<Rightarrow>
                              Some (Inr \<lparr>ro_reward_sum = ep_reward_sum s,
                                         ro_runner = self\<lparr>er_env := ep_env s\<rparr>,
                                         ro_single_agent =
                                           (if length single_agent = 1 \<and> agents = []
                                            then map snd agents3 else single_agent),
                                         ro_agents =
                                           (if length single_agent = 1 \<and> agents = []
                                            then [] else agents3),
                                         ro_calls = calls\<rparr>))))))"

text \<open>
  \<^verbatim>\<open>for name, value in rewards.items(): sum_rewards[name] += value\<close>, on a plain
  dictionary: a name that \<open>sum_rewards\<close> lacks raises \<^verbatim>\<open>KeyError\<close>. Both numbers are
  floats, and so is their sum.
\<close>

fun add_rewards :: "(string, rat) dict \<Rightarrow> (string, rat) dict \<Rightarrow> error + (string, rat) dict" where
  "add_rewards sum_rewards [] = Inr sum_rewards"
| "add_rewards sum_rewards ((name, v) # rest) =
     (case dict_item sum_rewards name of
        Inl err \<Rightarrow> Inl err
      | Inr old \<Rightarrow> add_rewards (dict_setitem name (fl (old + v)) sum_rewards) rest)"

text \<open>
  The loop \<^verbatim>\<open>for _ in range(self.num_repetitions)\<close> of \<^verbatim>\<open>run\<close>, on the runner, the
  agents, \<open>sum_rewards\<close> and the calls made so far.
\<close>

fun run_repetitions ::
  "('e, 'o, 'a, 'i, 's) env_class \<Rightarrow> ('g, 'o, 'a, rat, 'i) Agent \<Rightarrow> nat
     \<Rightarrow> 'e EnvironmentRunner \<times> 'g list \<times> (string, 'g) dict \<times> (string, rat) dict
          \<times> ('o, 'a, 'i) call list
     \<Rightarrow> (error + ('e EnvironmentRunner \<times> 'g list \<times> (string, 'g) dict \<times> (string, rat) dict
                    \<times> ('o, 'a, 'i) call list)) option" where
  "run_repetitions envc agc 0 st = Some (Inr st)"
| "run_repetitions envc agc (Suc n) (self, agent, agents, sum_rewards, calls) =
     (case run_once envc agc self agent agents of
        None \<Rightarrow> None
      | Some (Inl err) \<Rightarrow> Some (Inl err)
      | Some (Inr r) \<Rightarrow>
          (case add_rewards sum_rewards (ro_reward_sum r) of
             Inl err \<Rightarrow> Some (Inl err)
           | Inr sum_rewards' \<Rightarrow>
               run_repetitions envc agc n
                 (ro_runner r, ro_single_agent r, ro_agents r, sum_rewards',
                  calls @ ro_calls r)))"

text \<open>
  \<^verbatim>\<open>{name: float(value) / self.num_repetitions for name, value in sum_rewards.items()}\<close>:
  the division of a float by an integer, which is converted to a float first.
\<close>

definition mean_rewards :: "(string, rat) dict \<Rightarrow> int \<Rightarrow> error + (string, rat) dict" where
  "mean_rewards sum_rewards n =
     (if sum_rewards \<noteq> [] \<and> n = 0 then Inl ZeroDivisionError
      else Inr (map (\<lambda>(name, v). (name, fl (v / fl (of_int n)))) sum_rewards))"

datatype run_result = Scalar rat | Mapping "(string, rat) dict"

definition run ::
  "('e, 'o, 'a, 'i, 's) env_class \<Rightarrow> ('g, 'o, 'a, rat, 'i) Agent \<Rightarrow> 'e EnvironmentRunner
     \<Rightarrow> 'g list \<Rightarrow> (string, 'g) dict
     \<Rightarrow> (error + (run_result \<times> 'e EnvironmentRunner \<times> 'g list \<times> (string, 'g) dict
                    \<times> ('o, 'a, 'i) call list)) option" where
  "run envc agc self agent agents =
     (let sum_rewards =
            (if agents \<noteq> [] then map (\<lambda>(name, a). (name, 0)) agents else [(san, 0)])
      in case run_repetitions envc agc (nat (er_num_repetitions self))
                (self, agent, agents, sum_rewards, []) of
           None \<Rightarrow> None
         | Some (Inl err) \<Rightarrow> Some (Inl err)
         | Some (Inr (self', agent', agents', sum_rewards', calls)) \<Rightarrow>
             (case mean_rewards sum_rewards' (er_num_repetitions self) of
                Inl err \<Rightarrow> Some (Inl err)
              | Inr mean \<Rightarrow>
                  (case envc of
                     Gym g \<Rightarrow>
                       (case dict_item mean san of
                          Inl err \<Rightarrow> Some (Inl err)
                        | Inr v \<Rightarrow> Some (Inr (Scalar v, self', agent', agents', calls)))
                   | Multi m \<Rightarrow> Some (Inr (Mapping mean, self', agent', agents', calls)))))"

section \<open>The runner, in the words of the specification\<close>

text \<open>
  The specification describes \<^verbatim>\<open>run\<close> as: execute \<open>num_repetitions\<close> episodes, sum each
  episode's per-participant reward, divide by the repetition count. \<open>episodes n\<close> executes
  \<open>n\<close> episodes one after the other, each on the runner and the agents that the one before
  has left, and collects their reward dictionaries. \<open>float_total\<close> sums the rewards of one
  participant over them as floats, from \<open>0.0\<close> and in the order of the episodes, an episode
  without an entry for the participant adding nothing; \<open>float_mean\<close> divides that sum by
  the number of repetitions, as floats. \<open>run_names\<close> are the names under which \<^verbatim>\<open>run\<close>
  averages: those of the named agents when there are any, \<open>san\<close> otherwise.
  \<open>averaged_result\<close> is the shape of the result: one number for a classic environment, a
  dictionary over the names otherwise.
\<close>

fun episodes ::
  "('e, 'o, 'a, 'i, 's) env_class \<Rightarrow> ('g, 'o, 'a, rat, 'i) Agent \<Rightarrow> nat
     \<Rightarrow> 'e EnvironmentRunner \<times> 'g list \<times> (string, 'g) dict
     \<Rightarrow> (error + ((string, rat) dict list
                    \<times> 'e EnvironmentRunner \<times> 'g list \<times> (string, 'g) dict)) option" where
  "episodes envc agc 0 st = Some (Inr ([], st))"
| "episodes envc agc (Suc n) (self, agent, agents) =
     (case run_once envc agc self agent agents of
        None \<Rightarrow> None
      | Some (Inl err) \<Rightarrow> Some (Inl err)
      | Some (Inr r) \<Rightarrow>
          (case episodes envc agc n (ro_runner r, ro_single_agent r, ro_agents r) of
             None \<Rightarrow> None
           | Some (Inl err) \<Rightarrow> Some (Inl err)
           | Some (Inr (rs, st)) \<Rightarrow> Some (Inr (ro_reward_sum r # rs, st))))"

definition reward_step :: "string \<Rightarrow> rat \<Rightarrow> (string, rat) dict \<Rightarrow> rat" where
  "reward_step name old rewards =
     (case map_of rewards name of None \<Rightarrow> old | Some v \<Rightarrow> fl (old + v))"

definition float_total :: "(string, rat) dict list \<Rightarrow> string \<Rightarrow> rat" where
  "float_total rs name = foldl (reward_step name) 0 rs"

definition float_mean :: "(string, rat) dict list \<Rightarrow> nat \<Rightarrow> string \<Rightarrow> rat" where
  "float_mean rs k name = fl (float_total rs name / fl (of_nat k))"

definition run_names :: "(string, 'g) dict \<Rightarrow> string list" where
  "run_names agents = (if agents \<noteq> [] then keys agents else [san])"

definition averaged_result ::
  "('e, 'o, 'a, 'i, 's) env_class \<Rightarrow> string list \<Rightarrow> (string \<Rightarrow> rat) \<Rightarrow> run_result" where
  "averaged_result envc names mean =
     (case envc of
        Gym g \<Rightarrow> Scalar (mean san)
      | Multi m \<Rightarrow> Mapping (map (\<lambda>name. (name, mean name)) names))"

text \<open>
  What the loop of an episode keeps true: the summed rewards are a dictionary, and every
  name that has a summed reward is the name of an agent or of an outcome still to be acted
  on.
\<close>

definition episode_inv :: "('e, 'g, 'o, 'a, 'i) episode \<Rightarrow> bool" where
  "episode_inv s \<longleftrightarrow>
     distinct (keys (ep_reward_sum s))
     \<and> set (keys (ep_reward_sum s)) \<subseteq> set (keys (ep_agents s)) \<union> set (keys (ep_outcomes s))"

section \<open>Example environments and agents\<close>

text \<open>
  \<open>duel_env\<close> has two participants, who both observe at every tick. A step gives reward 1
  to a participant whose action is 0 and reward 0 otherwise, and ends the episode. The
  state counts the steps made.
\<close>

definition duel_env :: "(nat, nat, nat, rat, nat, unit) MultiAgentEnv" where
  "duel_env =
     \<lparr>env_reset = (\<lambda>n. Inr ([(''player_0'', 10), (''player_1'', 11)], 0)),
      env_step = (\<lambda>n actions.
         Inr (([(''player_0'', 20 + n), (''player_1'', 21 + n)],
               [(''player_0'', Some (if map_of actions ''player_0'' = Some 0 then 1 else 0)),
                (''player_1'', Some (if map_of actions ''player_1'' = Some 0 then 1 else 0))],
               [(''__all__'', True)],
               []), Suc n)),
      env_copy = (\<lambda>n. Inr n),
      env_agent_names = (\<lambda>n. [''player_0'', ''player_1'']),
      env_observation_space = (\<lambda>n. ()),
      env_action_space = (\<lambda>n. ())\<rparr>"

text \<open>
  \<open>solo_env\<close> has one participant. Every step gives it reward 1 and marks it done, while
  the episode as a whole is never reported done.
\<close>

definition solo_env :: "(nat, nat, nat, rat, nat, unit) MultiAgentEnv" where
  "solo_env =
     \<lparr>env_reset = (\<lambda>n. Inr ([(''player_0'', 0)], 0)),
      env_step = (\<lambda>n actions.
         Inr (([(''player_0'', Suc n)], [(''player_0'', Some 1)], [(''player_0'', True)], []),
              Suc n)),
      env_copy = (\<lambda>n. Inr n),
      env_agent_names = (\<lambda>n. [''player_0'']),
      env_observation_space = (\<lambda>n. ()),
      env_action_space = (\<lambda>n. ())\<rparr>"

text \<open>
  \<open>turn_env\<close> has two participants who play in turns: after a reset only \<open>player_0\<close>
  observes, after a step only the other participant does.
\<close>

definition turn_env :: "(nat, nat, nat, rat, nat, unit) MultiAgentEnv" where
  "turn_env =
     \<lparr>env_reset = (\<lambda>n. Inr ([(''player_0'', 0)], 0)),
      env_step = (\<lambda>n actions.
         Inr (([(if even n then ''player_1'' else ''player_0'', Suc n)],
               [(if even n then ''player_1'' else ''player_0'', Some 0)],
               [(''__all__'', False)],
               []), Suc n)),
      env_copy = (\<lambda>n. Inr n),
      env_agent_names = (\<lambda>n. [''player_0'', ''player_1'']),
      env_observation_space = (\<lambda>n. ()),
      env_action_space = (\<lambda>n. ())\<rparr>"

text \<open>An agent whose state is the action it always chooses.\<close>

definition constant_agent :: "(nat, nat, nat, rat, nat) Agent" where
  "constant_agent =
     \<lparr>agent_act = (\<lambda>self ob rw dn infs. Inr (self, self)),
      agent_reset = (\<lambda>self. Inr self),
      agent_copy = (\<lambda>self. Inr self)\<rparr>"

text \<open>\<open>duel_env\<close> with \<open>player_1\<close> delegated to the agent that always chooses 0.\<close>

definition duel_wrapper :: "(nat, nat, nat, rat, nat, unit) PartialMultiAgentEnv" where
  "duel_wrapper =
     \<lparr>pm_env = 0, pm_agents = [(''player_1'', 0)], pm_agent_names = [''player_0''],
      pm_observation_space = (), pm_action_space = (), pm_agents_outcome = []\<rparr>"

text \<open>\<open>turn_env\<close> with \<open>player_1\<close> delegated.\<close>

definition turn_wrapper :: "(nat, nat, nat, rat, nat, unit) PartialMultiAgentEnv" where
  "turn_wrapper =
     \<lparr>pm_env = 0, pm_agents = [(''player_1'', 0)], pm_agent_names = [''player_0''],
      pm_observation_space = (), pm_action_space = (), pm_agents_outcome = []\<rparr>"

text \<open>\<open>solo_env\<close> with nobody delegated.\<close>

definition solo_wrapper :: "(nat, nat, nat, rat, nat, unit) PartialMultiAgentEnv" where
  "solo_wrapper =
     \<lparr>pm_env = 0, pm_agents = [], pm_agent_names = [''player_0''],
      pm_observation_space = (), pm_action_space = (), pm_agents_outcome = []\<rparr>"

text \<open>\<open>duel_wrapper\<close> after its \<^verbatim>\<open>reset\<close>: the outcome of \<open>player_1\<close> is cached.\<close>

definition duel_wrapper_ready :: "(nat, nat, nat, rat, nat, unit) PartialMultiAgentEnv" where
  "duel_wrapper_ready =
     duel_wrapper\<lparr>pm_agents_outcome :=
       [(''player_1'', \<lparr>observation = 11, reward = None, done_flag = False, info = []\<rparr>)]\<rparr>"

text \<open>The adapter over \<open>solo_wrapper\<close>.\<close>

definition solo_single :: "(nat, nat, nat, rat, nat, unit) SingleAgentEnv" where
  "solo_single =
     \<lparr>sa_env = solo_wrapper, sa_observation_space = (), sa_action_space = (),
      sa_agent_name = ''player_0''\<rparr>"

text \<open>\<open>duel_wrapper_ready\<close> after a \<^verbatim>\<open>step\<close> in which \<open>player_1\<close> was left to its agent.\<close>

definition duel_wrapper_stepped :: "(nat, nat, nat, rat, nat, unit) PartialMultiAgentEnv" where
  "duel_wrapper_stepped =
     duel_wrapper\<lparr>pm_env := 1, pm_agents_outcome :=
       [(''player_1'', \<lparr>observation = 21, reward = Some 1, done_flag = True, info = []\<rparr>)]\<rparr>"

text \<open>\<open>duel_env\<close> with nobody delegated: both participants remain.\<close>

definition duel_undelegated :: "(nat, nat, nat, rat, nat, unit) PartialMultiAgentEnv" where
  "duel_undelegated =
     \<lparr>pm_env = 0, pm_agents = [], pm_agent_names = [''player_0'', ''player_1''],
      pm_observation_space = (), pm_action_space = (), pm_agents_outcome = []\<rparr>"



text \<open>
  A runner over \<open>duel_env\<close> with three repetitions and no step limit; the agents of both
  participants (\<open>player_1\<close> always chooses 0, \<open>player_0\<close> always chooses 2); the rewards of
  one episode; the mean reward of each participant.
\<close>

definition duel_runner :: "nat EnvironmentRunner" where
  "duel_runner = \<lparr>er_env = 0, er_num_repetitions = 3, er_max_step = Unbounded\<rparr>"

definition duel_agents :: "(string, nat) dict" where
  "duel_agents = [(''player_1'', 0), (''player_0'', 2)]"

definition duel_rewards :: "(string, rat) dict" where
  "duel_rewards = [(''player_0'', 0), (''player_1'', 1)]"

definition duel_mean :: "string \<Rightarrow> rat" where
  "duel_mean name = (if name = ''player_1'' then 1 else 0)"

text \<open>
  The adapter over \<open>duel_wrapper\<close>, a runner over it with one repetition, and the adapter
  as one episode leaves it.
\<close>

definition duel_single :: "(nat, nat, nat, rat, nat, unit) SingleAgentEnv" where
  "duel_single =
     \<lparr>sa_env = duel_wrapper, sa_observation_space = (), sa_action_space = (),
      sa_agent_name = ''player_0''\<rparr>"

definition duel_single_runner ::
  "(nat, nat, nat, rat, nat, unit) SingleAgentEnv EnvironmentRunner" where
  "duel_single_runner = \<lparr>er_env = duel_single, er_num_repetitions = 1, er_max_step = Unbounded\<rparr>"

definition duel_single_played :: "(nat, nat, nat, rat, nat, unit) SingleAgentEnv" where
  "duel_single_played = duel_single\<lparr>sa_env := duel_wrapper_stepped\<rparr>"

definition duel_gym ::
  "((nat, nat, nat, rat, nat, unit) SingleAgentEnv, nat, nat, nat, unit) env_class" where
  "duel_gym = Gym (SingleAgentEnv_class duel_env constant_agent)"

text \<open>
  \<open>float_tenth\<close> is the float that Python writes \<^verbatim>\<open>0.1\<close>. \<open>tenth_env\<close> has one
  participant; a step gives it the reward \<open>float_tenth\<close> and ends the episode.
  \<open>tenth_runner\<close> runs three repetitions on it, and \<open>tenth_rewards\<close> are the rewards of one
  episode.
\<close>

definition float_tenth :: rat where
  "float_tenth = 3602879701896397 / 36028797018963968"

definition tenth_env :: "(nat, nat, nat, rat, nat, unit) MultiAgentEnv" where
  "tenth_env =
     \<lparr>env_reset = (\<lambda>n. Inr ([(''player_0'', 0)], 0)),
      env_step = (\<lambda>n actions.
         Inr (([(''player_0'', Suc n)], [(''player_0'', Some float_tenth)],
               [(''__all__'', True)], []), Suc n)),
      env_copy = (\<lambda>n. Inr n),
      env_agent_names = (\<lambda>n. [''player_0'']),
      env_observation_space = (\<lambda>n. ()),
      env_action_space = (\<lambda>n. ())\<rparr>"

definition tenth_runner :: "nat EnvironmentRunner" where
  "tenth_runner = \<lparr>er_env = 0, er_num_repetitions = 3, er_max_step = Unbounded\<rparr>"

definition tenth_rewards :: "(string, rat) dict" where
  "tenth_rewards = [(''player_0'', float_tenth)]"

section \<open>Facts about dictionaries\<close>

lemma map_of_dict_setitem:
  "map_of (dict_setitem k v d) = (map_of d)(k \<mapsto> v)"
  by (simp add: dict_setitem_def update_conv')

lemma keys_dict_setitem:
  "set (keys (dict_setitem k v d)) = insert k (set (keys d))"
  by (auto simp: dict_setitem_def keys_def update_keys)

lemma dict_get_setitem_same: "dict_get (dict_setitem k v d) k x = v"
  by (simp add: dict_get_def map_of_dict_setitem)


lemma keys_dict_update:
  "set (keys (dict_update d other)) = set (keys d) \<union> set (keys other)"
  unfolding dict_update_def
proof (induction other arbitrary: d)
  case Nil
  then show ?case by (simp add: keys_def)
next
  case (Cons p other)
  obtain k v where p: "p = (k, v)" by (cases p)
  have "set (keys (foldl (\<lambda>acc (k, v). dict_setitem k v acc) (dict_setitem k v d) other))
        = insert k (set (keys d)) \<union> set (keys other)"
    using Cons.IH [of "dict_setitem k v d"] by (simp only: keys_dict_setitem)
  also have "\<dots> = set (keys d) \<union> set (keys ((k, v) # other))"
    by (auto simp: keys_def)
  finally show ?case by (simp only: p foldl_Cons case_prod_conv)
qed

section \<open>Round trip and shape of the conversions\<close>

lemma from_multiagent_step_keys:
  "keys (fst (from_multiagent_step obs rew dn infs)) = keys obs"
  by (simp add: from_multiagent_step_def keys_def case_prod_beta comp_def)

lemma map_of_from_multiagent_step:
  "map_of (fst (from_multiagent_step obs rew dn infs)) name =
     map_option (\<lambda>ob. StepOutcome_init ob (dict_get rew name None)
                        (dict_get dn name (dict_get dn ''__all__'' False))
                        (Some (dict_get infs name [])))
       (map_of obs name)"
  unfolding from_multiagent_step_def Let_def fst_conv
  by (induction obs) auto

text \<open>
  C1. Converting a multi-agent step to outcomes and back, with the overall flag
  \<open>done.get("__all__", False)\<close>, gives back the same observation dictionary and the same
  \<open>"__all__"\<close> flag; the reward and info dictionaries come back with one entry per
  observed name, a missing reward as \<open>None\<close> and a missing info as the empty dictionary,
  and every per-agent done flag defaulted to the overall flag. The statement holds for the
  empty observation dictionary as well.
\<close>

theorem multiagent_step_round_trip:
  "to_multiagent_step (fst (from_multiagent_step obs rew dn infs))
       (dict_get dn ''__all__'' False)
     = (obs,
        map (\<lambda>(agent, ob). (agent, dict_get rew agent None)) obs,
        dict_setitem ''__all__'' (dict_get dn ''__all__'' False)
          (map (\<lambda>(agent, ob). (agent, dict_get dn agent (dict_get dn ''__all__'' False))) obs),
        map (\<lambda>(agent, ob). (agent, dict_get infs agent [])) obs)
   \<and> map_of (fst (snd (snd (to_multiagent_step (fst (from_multiagent_step obs rew dn infs))
                                  (dict_get dn ''__all__'' False))))) ''__all__''
       = Some (dict_get dn ''__all__'' False)"
  by (simp add: to_multiagent_step_def from_multiagent_step_def StepOutcome_init_def
        Let_def case_prod_unfold comp_def map_of_dict_setitem)

text \<open>
  C2. \<open>from_multiagent_step\<close> returns one outcome per entry of \<open>obs\<close>, under the same
  keys in the same order: the outcome of a name carries its observation, the reward
  \<open>reward.get(name, None)\<close>, the done flag \<open>done.get(name, done.get("__all__", False))\<close>
  and the info \<open>info.get(name, {})\<close>; looking a name up in the result finds exactly that
  outcome when \<open>obs\<close> has the name and nothing otherwise. The second component is
  \<open>done.get("__all__", False)\<close>. The function is pure: its result depends on the four
  arguments only, and they are not changed.
\<close>

theorem from_multiagent_step_outcomes:
  "keys (fst (from_multiagent_step obs rew dn infs)) = keys obs
   \<and> fst (from_multiagent_step obs rew dn infs)
       = map (\<lambda>(name, ob).
                (name, \<lparr>observation = ob, reward = dict_get rew name None,
                        done_flag = dict_get dn name (dict_get dn ''__all__'' False),
                        info = dict_get infs name []\<rparr>)) obs
   \<and> map_of (fst (from_multiagent_step obs rew dn infs)) name
       = map_option (\<lambda>ob. \<lparr>observation = ob, reward = dict_get rew name None,
                            done_flag = dict_get dn name (dict_get dn ''__all__'' False),
                            info = dict_get infs name []\<rparr>) (map_of obs name)
   \<and> snd (from_multiagent_step obs rew dn infs) = dict_get dn ''__all__'' False"
proof (intro conjI)
  show "keys (fst (from_multiagent_step obs rew dn infs)) = keys obs"
    by (rule from_multiagent_step_keys)
  show "fst (from_multiagent_step obs rew dn infs)
       = map (\<lambda>(name, ob).
                (name, \<lparr>observation = ob, reward = dict_get rew name None,
                        done_flag = dict_get dn name (dict_get dn ''__all__'' False),
                        info = dict_get infs name []\<rparr>)) obs"
    by (simp add: from_multiagent_step_def StepOutcome_init_def)
  show "map_of (fst (from_multiagent_step obs rew dn infs)) name
       = map_option (\<lambda>ob. \<lparr>observation = ob, reward = dict_get rew name None,
                            done_flag = dict_get dn name (dict_get dn ''__all__'' False),
                            info = dict_get infs name []\<rparr>) (map_of obs name)"
    by (simp add: map_of_from_multiagent_step StepOutcome_init_def)
  show "snd (from_multiagent_step obs rew dn infs) = dict_get dn ''__all__'' False"
    by (simp add: from_multiagent_step_def)
qed

section \<open>Facts about the wrapper's helpers\<close>

lemma keys_dict_setitem_present:
  "map_of d k = Some x \<Longrightarrow> keys (dict_setitem k v d) = keys d"
  by (auto simp: keys_def dict_setitem_def update_keys dest: map_of_SomeD
        intro: rev_image_eqI)

lemma keys_map_value: "keys (map (\<lambda>(k, v). (k, f k v)) d) = keys d"
  by (simp add: keys_def case_prod_unfold comp_def)

lemma dict_item_Inr: "dict_item d k = Inr v \<longleftrightarrow> map_of d k = Some v"
  by (simp add: dict_item_def split: option.splits)

lemma dict_item_Inl: "dict_item d k = Inl err \<longleftrightarrow> map_of d k = None \<and> err = KeyError k"
  by (auto simp: dict_item_def split: option.splits)

lemma dict_select_Inr:
  "dict_select d names = Inr cache \<Longrightarrow>
     keys cache = names \<and> (\<forall>n \<in> set names. map_of cache n = map_of d n \<and> map_of d n \<noteq> None)"
proof (induction names arbitrary: cache)
  case Nil
  then show ?case by (simp add: keys_def)
next
  case (Cons name names)
  from Cons.prems obtain v rest where
    v: "map_of d name = Some v" and rest: "dict_select d names = Inr rest"
    and cache: "cache = (name, v) # rest"
    by (auto simp: dict_item_def split: option.splits sum.splits)
  from Cons.IH [OF rest] show ?case
    by (auto simp: cache keys_def v)
qed

lemma dict_select_Inl:
  "dict_select d names = Inl err \<Longrightarrow> \<exists>n \<in> set names. map_of d n = None \<and> err = KeyError n"
  by (induction names) (auto simp: dict_item_def split: option.splits sum.splits)

lemma dict_select_succeeds:
  "(\<exists>cache. dict_select d names = Inr cache) \<longleftrightarrow> (\<forall>n \<in> set names. map_of d n \<noteq> None)"
proof
  assume "\<exists>cache. dict_select d names = Inr cache"
  then show "\<forall>n \<in> set names. map_of d n \<noteq> None"
    using dict_select_Inr by blast
next
  assume "\<forall>n \<in> set names. map_of d n \<noteq> None"
  then show "\<exists>cache. dict_select d names = Inr cache"
    by (cases "dict_select d names") (fastforce dest!: dict_select_Inl)+
qed

lemma copy_agents_Inr:
  "copy_agents agc agents = Inr agents' \<Longrightarrow>
     keys agents' = keys agents
     \<and> list_all2 (\<lambda>(name, agent) (name', agent').
                    name' = name \<and> agent_copy agc agent = Inr agent') agents agents'"
proof (induction agents arbitrary: agents')
  case Nil
  then show ?case by (simp add: keys_def)
next
  case (Cons p agents)
  obtain name agent where p: "p = (name, agent)" by (cases p)
  from Cons.prems obtain agent1 rest where
    a: "agent_copy agc agent = Inr agent1" and r: "copy_agents agc agents = Inr rest"
    and e: "agents' = (name, agent1) # rest"
    by (auto simp: p split: sum.splits)
  from Cons.IH [OF r] show ?case by (simp add: p e a keys_def)
qed

lemma delegated_actions_keys:
  "delegated_actions agc agents acts cache = Inr (acts', agents') \<Longrightarrow> keys agents' = keys agents"
proof (induction cache arbitrary: agents acts)
  case Nil
  then show ?case by simp
next
  case (Cons p cache)
  obtain name outcome where p: "p = (name, outcome)" by (cases p)
  from Cons.prems obtain agent action agent1 where
    a: "map_of agents name = Some agent"
    and r: "delegated_actions agc (dict_setitem name agent1 agents)
              (dict_setitem name action acts) cache = Inr (acts', agents')"
    by (auto simp: p dict_item_Inr StepOutcome_iter_def split: sum.splits prod.splits)
  from Cons.IH [OF r] show ?case by (simp add: keys_dict_setitem_present [OF a])
qed

lemma not_delegated_keys:
  "name \<in> set (keys (not_delegated agents outcomes)) \<Longrightarrow>
     name \<notin> set (keys agents) \<and> name \<in> set (keys outcomes)"
  by (force simp: not_delegated_def keys_def)

lemma to_multiagent_step_keys:
  "to_multiagent_step outcomes dn = (obs, rew, dn', infs) \<Longrightarrow>
     keys obs = keys outcomes \<and> keys rew = keys outcomes \<and> keys infs = keys outcomes
     \<and> set (keys dn') = insert ''__all__'' (set (keys outcomes))"
proof -
  assume "to_multiagent_step outcomes dn = (obs, rew, dn', infs)"
  then have obs: "obs = map (\<lambda>(agent, outcome). (agent, observation outcome)) outcomes"
    and rew: "rew = map (\<lambda>(agent, outcome). (agent, reward outcome)) outcomes"
    and infs: "infs = map (\<lambda>(agent, outcome). (agent, info outcome)) outcomes"
    and dn': "dn' = dict_setitem ''__all__'' dn
                (map (\<lambda>(agent, outcome). (agent, done_flag outcome)) outcomes)"
    by (auto simp: to_multiagent_step_def Let_def)
  show ?thesis
    unfolding obs rew infs dn' keys_dict_setitem keys_map_value by simp
qed

section \<open>Construction of the wrapper\<close>

text \<open>
  C4. Delegating a name that is not among the \<open>agent_names\<close> of the base environment makes
  the construction fail, whatever the collaborators do. When the calls made before the
  check return (the copy of the environment, the copies of the agents, the reset of the
  copied environment), the failure is the \<open>ValueError\<close> of the check; and when every delegated
  name is among the \<open>agent_names\<close>, the construction then succeeds. The message in the
  source is spelled \<open>Unkwnon agents\<close>.
\<close>

theorem partial_init_validation:
  "((\<exists>name \<in> set (keys agents). name \<notin> set (env_agent_names envc env)) \<longrightarrow>
      (\<exists>err. PartialMultiAgentEnv_init envc agc env agents = Inl err))
   \<and> (env_copy envc env = Inr env1 \<and> copy_agents agc agents = Inr agents1
        \<and> env_reset envc env1 = Inr (obs, env2) \<longrightarrow>
      ((\<exists>name \<in> set (keys agents). name \<notin> set (env_agent_names envc env)) \<longrightarrow>
         PartialMultiAgentEnv_init envc agc env agents = Inl (ValueError ''Unkwnon agents''))
      \<and> ((\<forall>name \<in> set (keys agents). name \<in> set (env_agent_names envc env)) \<longrightarrow>
         (\<exists>w. PartialMultiAgentEnv_init envc agc env agents = Inr w)))"
  by (auto simp: PartialMultiAgentEnv_init_def split: sum.splits)

theorem partial_init_validation_witness:
  "(\<exists>name \<in> set (keys [(''player_2'', 0::nat)]). name \<notin> set (env_agent_names duel_env 0))
   \<and> env_copy duel_env 0 = Inr 0
   \<and> copy_agents constant_agent [(''player_2'', 0)] = Inr [(''player_2'', 0)]
   \<and> copy_agents constant_agent [(''player_1'', 0)] = Inr [(''player_1'', 0)]
   \<and> env_reset duel_env 0 = Inr ([(''player_0'', 10), (''player_1'', 11)], 0)
   \<and> PartialMultiAgentEnv_init duel_env constant_agent 0 [(''player_2'', 0)]
       = Inl (ValueError ''Unkwnon agents'')
   \<and> set (keys [(''player_1'', 0::nat)]) \<subseteq> set (env_agent_names duel_env 0)
   \<and> (\<exists>w. PartialMultiAgentEnv_init duel_env constant_agent 0 [(''player_1'', 0)] = Inr w)"
  using partial_init_validation [of "[(''player_2'', 0)]" duel_env 0 constant_agent 0
          "[(''player_2'', 0)]" "[(''player_0'', 10), (''player_1'', 11)]" 0]
    partial_init_validation [of "[(''player_1'', 0)]" duel_env 0 constant_agent 0
          "[(''player_1'', 0)]" "[(''player_0'', 10), (''player_1'', 11)]" 0]
  by (simp add: keys_def duel_env_def constant_agent_def)

lemma partial_init_Inr:
  fixes w :: "('e, 'g, 'o, 'r, 'i, 's) PartialMultiAgentEnv"
  assumes "PartialMultiAgentEnv_init envc agc env agents = Inr w"
  shows "\<exists>env1 obs agents1.
           env_copy envc env = Inr env1 \<and> copy_agents agc agents = Inr agents1
           \<and> env_reset envc env1 = Inr (obs, pm_env w)
           \<and> set (keys agents) \<subseteq> set (env_agent_names envc env)
           \<and> w = \<lparr>pm_env = pm_env w, pm_agents = agents1,
                   pm_agent_names =
                     filter (\<lambda>an. an \<notin> set (keys agents)) (env_agent_names envc env),
                   pm_observation_space = env_observation_space envc env,
                   pm_action_space = env_action_space envc env,
                   pm_agents_outcome = []\<rparr>"
  using assms
  by (auto simp: PartialMultiAgentEnv_init_def split: sum.splits if_splits)

lemma partial_reset_Inr:
  fixes w :: "('e, 'g, 'o, 'r, 'i, 's) PartialMultiAgentEnv"
  assumes "PartialMultiAgentEnv_reset envc w = Inr (obs, w')"
  shows "\<exists>obs0 env' cache outcomes.
           env_reset envc (pm_env w) = Inr (obs0, env')
           \<and> outcomes = fst (from_multiagent_step obs0 [] [] [])
           \<and> dict_select outcomes (keys (pm_agents w)) = Inr cache
           \<and> obs = map (\<lambda>(name, outcome). (name, observation outcome))
                     (not_delegated (pm_agents w) outcomes)
           \<and> w' = w\<lparr>pm_env := env', pm_agents_outcome := cache\<rparr>"
  using assms
  by (auto simp: PartialMultiAgentEnv_reset_def Let_def split: sum.splits)

text \<open>
  The wrapper built over \<open>duel_env\<close> with \<open>player_1\<close> delegated: the reset made during
  the construction gives \<open>player_1\<close> the observation 11, and the cache of the new wrapper
  has no outcome for \<open>player_1\<close>.
\<close>

theorem partial_init_cache_counterexample:
  "PartialMultiAgentEnv_init duel_env constant_agent 0 [(''player_1'', 0)] = Inr duel_wrapper
   \<and> env_copy duel_env 0 = Inr 0
   \<and> env_reset duel_env 0 = Inr ([(''player_0'', 10), (''player_1'', 11)], 0)
   \<and> map_of (pm_agents_outcome duel_wrapper) ''player_1'' = None"
  by (simp add: PartialMultiAgentEnv_init_def duel_env_def constant_agent_def keys_def
        duel_wrapper_def)

text \<open>
  C9, as the code has it. A wrapper that has been built holds the state that one reset
  left in the copy of the base environment, and the copies of the agents under their names.
  The observations of that reset are dropped: the cache of outcomes is empty after the
  construction. A \<open>reset\<close> of the wrapper then caches, for every delegated name, the outcome
  that carries the observation of that name from that reset (with no reward, not done,
  empty info).
\<close>

theorem partial_init_state:
  fixes w :: "('e, 'g, 'o, 'r, 'i, 's) PartialMultiAgentEnv"
  assumes "PartialMultiAgentEnv_init envc agc env agents = Inr w"
  shows "(\<exists>env1 obs. env_copy envc env = Inr env1 \<and> env_reset envc env1 = Inr (obs, pm_env w))
    \<and> copy_agents agc agents = Inr (pm_agents w)
    \<and> list_all2 (\<lambda>(name, agent) (name', agent').
                   name' = name \<and> agent_copy agc agent = Inr agent') agents (pm_agents w)
    \<and> pm_agents_outcome w = []
    \<and> (\<forall>obs' w'. PartialMultiAgentEnv_reset envc w = Inr (obs', w') \<longrightarrow>
         (\<forall>name \<in> set (keys agents).
            \<exists>obs0 env' ob. env_reset envc (pm_env w) = Inr (obs0, env')
              \<and> map_of obs0 name = Some ob
              \<and> map_of (pm_agents_outcome w') name
                  = Some \<lparr>observation = ob, reward = None, done_flag = False, info = []\<rparr>))"
proof -
  from partial_init_Inr [OF assms] obtain env1 obs agents1 where
    c: "env_copy envc env = Inr env1" and a: "copy_agents agc agents = Inr agents1"
    and r: "env_reset envc env1 = Inr (obs, pm_env w)"
    and ags: "pm_agents w = agents1" and cache: "pm_agents_outcome w = []"
    by (metis PartialMultiAgentEnv.select_convs(2,6))
  have k: "keys (pm_agents w) = keys agents"
    using copy_agents_Inr [OF a] by (simp add: ags)
  have "\<exists>obs0 env' ob. env_reset envc (pm_env w) = Inr (obs0, env')
              \<and> map_of obs0 name = Some ob
              \<and> map_of (pm_agents_outcome w') name
                  = Some \<lparr>observation = ob, reward = None, done_flag = False, info = []\<rparr>"
    if rs: "PartialMultiAgentEnv_reset envc w = Inr (obs', w')" and n: "name \<in> set (keys agents)"
    for obs' w' name
  proof -
    from partial_reset_Inr [OF rs] obtain obs0 env' cache outcomes where
      e: "env_reset envc (pm_env w) = Inr (obs0, env')"
      and oc: "outcomes = fst (from_multiagent_step obs0 [] [] [])"
      and sel: "dict_select outcomes (keys agents) = Inr cache"
      and w': "w' = w\<lparr>pm_env := env', pm_agents_outcome := cache\<rparr>"
      by (auto simp: k)
    from dict_select_Inr [OF sel] n
    have "map_of cache name = map_of outcomes name" and "map_of outcomes name \<noteq> None"
      by auto
    then show ?thesis
      by (auto simp: e w' oc map_of_from_multiagent_step StepOutcome_init_def dict_get_def)
  qed
  with c r a cache copy_agents_Inr [OF a] show ?thesis
    by (simp add: ags)
qed

theorem partial_init_state_witness:
  "PartialMultiAgentEnv_init duel_env constant_agent 0 [(''player_1'', 0)] = Inr duel_wrapper
   \<and> pm_agents_outcome duel_wrapper = []
   \<and> PartialMultiAgentEnv_reset duel_env duel_wrapper
       = Inr ([(''player_0'', 10)], duel_wrapper_ready)
   \<and> map_of (pm_agents_outcome duel_wrapper_ready) ''player_1''
       = Some \<lparr>observation = 11, reward = None, done_flag = False, info = []\<rparr>"
proof -
  have i: "PartialMultiAgentEnv_init duel_env constant_agent 0 [(''player_1'', 0)]
             = Inr duel_wrapper"
    by (simp add: PartialMultiAgentEnv_init_def duel_env_def constant_agent_def keys_def
          duel_wrapper_def)
  have r: "PartialMultiAgentEnv_reset duel_env duel_wrapper
             = Inr ([(''player_0'', 10)], duel_wrapper_ready)"
    by (simp add: PartialMultiAgentEnv_reset_def duel_env_def duel_wrapper_def
          duel_wrapper_ready_def from_multiagent_step_def StepOutcome_init_def keys_def
          dict_item_def dict_get_def not_delegated_def)
  from partial_init_state [OF i] r show ?thesis
    by (simp add: i keys_def duel_wrapper_def duel_wrapper_ready_def)
qed

section \<open>What the wrapper exposes\<close>

lemma full_action_dict_Inr:
  assumes "full_action_dict agc w action_dict = Inr (actions, agents')"
  shows "\<exists>acts. delegated_actions agc (pm_agents w) [] (pm_agents_outcome w) = Inr (acts, agents')
           \<and> actions = dict_update acts action_dict"
  using assms by (auto simp: full_action_dict_def split: sum.splits)

lemma step_with_Inr:
  fixes w :: "('e, 'g, 'o, 'r, 'i, 's) PartialMultiAgentEnv"
  assumes "step_with envc w actions agents' = Inr ((obs, rew, dn, infs), w')"
  shows "\<exists>obs0 rew0 dn0 infs0 env' cache outcomes.
           env_step envc (pm_env w) actions = Inr ((obs0, rew0, dn0, infs0), env')
           \<and> outcomes = fst (from_multiagent_step obs0 rew0 dn0 infs0)
           \<and> dict_select outcomes (keys agents') = Inr cache
           \<and> (obs, rew, dn, infs)
               = to_multiagent_step (not_delegated agents' outcomes) (dict_get dn0 ''__all__'' False)
           \<and> w' = w\<lparr>pm_env := env', pm_agents := agents', pm_agents_outcome := cache\<rparr>"
  using assms
  by (auto simp: step_with_def from_multiagent_step_def Let_def split: sum.splits)

lemma partial_step_Inr:
  fixes w :: "('e, 'g, 'o, 'r, 'i, 's) PartialMultiAgentEnv"
  assumes "PartialMultiAgentEnv_step envc agc w action_dict = Inr (ret, w')"
  shows "\<exists>actions agents'. full_action_dict agc w action_dict = Inr (actions, agents')
           \<and> step_with envc w actions agents' = Inr (ret, w')"
  using assms by (auto simp: PartialMultiAgentEnv_step_def split: sum.splits)

text \<open>
  C3. A wrapper that has been built exposes as \<open>agent_names\<close> the \<open>agent_names\<close> of the base
  environment without the delegated names, in the order of the base environment, and it
  holds one agent under each delegated name. For any wrapper, the observations returned by
  \<open>reset\<close> and the observation, reward and info dictionaries returned by \<open>step\<close> have no
  delegated name as a key; the done dictionary returned by \<open>step\<close> has the key \<open>"__all__"\<close>
  and otherwise no delegated name. Neither call changes the names under which agents are
  delegated, nor the exposed \<open>agent_names\<close>, so this holds along any sequence of calls.
\<close>

theorem partial_exposes_remainder:
  fixes w0 w w' w'' :: "('e, 'g, 'o, 'r, 'i, 's) PartialMultiAgentEnv"
  shows
  "(PartialMultiAgentEnv_init envc agc env agents = Inr w0 \<longrightarrow>
       pm_agent_names w0 = filter (\<lambda>an. an \<notin> set (keys agents)) (env_agent_names envc env)
       \<and> keys (pm_agents w0) = keys agents)
   \<and> (PartialMultiAgentEnv_reset envc w = Inr (obs, w') \<longrightarrow>
       (\<forall>name \<in> set (keys obs). name \<notin> set (keys (pm_agents w)))
       \<and> keys (pm_agents w') = keys (pm_agents w)
       \<and> pm_agent_names w' = pm_agent_names w)
   \<and> (PartialMultiAgentEnv_step envc agc w action_dict = Inr ((obs2, rew2, dn2, infs2), w'') \<longrightarrow>
       (\<forall>name \<in> set (keys obs2) \<union> set (keys rew2) \<union> set (keys infs2).
          name \<notin> set (keys (pm_agents w)))
       \<and> (\<forall>name \<in> set (keys dn2). name = ''__all__'' \<or> name \<notin> set (keys (pm_agents w)))
       \<and> ''__all__'' \<in> set (keys dn2)
       \<and> keys (pm_agents w'') = keys (pm_agents w)
       \<and> pm_agent_names w'' = pm_agent_names w)"
proof (intro conjI impI)
  assume i: "PartialMultiAgentEnv_init envc agc env agents = Inr w0"
  from partial_init_Inr [OF i] obtain agents1 where
    a: "copy_agents agc agents = Inr agents1" and ags: "pm_agents w0 = agents1"
    and n: "pm_agent_names w0
              = filter (\<lambda>an. an \<notin> set (keys agents)) (env_agent_names envc env)"
    by (metis PartialMultiAgentEnv.select_convs(2,3))
  show "pm_agent_names w0 = filter (\<lambda>an. an \<notin> set (keys agents)) (env_agent_names envc env)"
    by (rule n)
  show "keys (pm_agents w0) = keys agents"
    using copy_agents_Inr [OF a] by (simp add: ags)
next
  assume r: "PartialMultiAgentEnv_reset envc w = Inr (obs, w')"
  from partial_reset_Inr [OF r] obtain obs0 env' cache outcomes where
    sel: "dict_select outcomes (keys (pm_agents w)) = Inr cache"
    and obs: "obs = map (\<lambda>(name, outcome). (name, observation outcome))
                  (not_delegated (pm_agents w) outcomes)"
    and w': "w' = w\<lparr>pm_env := env', pm_agents_outcome := cache\<rparr>"
    by blast
  show "\<forall>name \<in> set (keys obs). name \<notin> set (keys (pm_agents w))"
    unfolding obs keys_map_value using not_delegated_keys by blast
  show "keys (pm_agents w') = keys (pm_agents w)" by (simp add: w')
  show "pm_agent_names w' = pm_agent_names w" by (simp add: w')
next
  assume s: "PartialMultiAgentEnv_step envc agc w action_dict = Inr ((obs2, rew2, dn2, infs2), w'')"
  from partial_step_Inr [OF s] obtain actions agents' where
    f: "full_action_dict agc w action_dict = Inr (actions, agents')"
    and sw: "step_with envc w actions agents' = Inr ((obs2, rew2, dn2, infs2), w'')"
    by blast
  from full_action_dict_Inr [OF f] delegated_actions_keys
  have k: "keys agents' = keys (pm_agents w)" by blast
  from step_with_Inr [OF sw] obtain dn0 env' cache outcomes where
    sel: "dict_select outcomes (keys agents') = Inr cache"
    and ret: "(obs2, rew2, dn2, infs2)
            = to_multiagent_step (not_delegated agents' outcomes) (dict_get dn0 ''__all__'' False)"
    and w'': "w'' = w\<lparr>pm_env := env', pm_agents := agents', pm_agents_outcome := cache\<rparr>"
    by blast
  note tk = to_multiagent_step_keys [OF ret [symmetric]]
  have nd: "name \<notin> set (keys (pm_agents w))"
    if "name \<in> set (keys (not_delegated agents' outcomes))" for name
    using not_delegated_keys [OF that] by (simp add: k)
  show "\<forall>name \<in> set (keys obs2) \<union> set (keys rew2) \<union> set (keys infs2).
          name \<notin> set (keys (pm_agents w))"
    using tk nd by auto
  show "\<forall>name \<in> set (keys dn2). name = ''__all__'' \<or> name \<notin> set (keys (pm_agents w))"
    using tk nd by auto
  show "''__all__'' \<in> set (keys dn2)" using tk by simp
  show "keys (pm_agents w'') = keys (pm_agents w)" by (simp add: w'' k)
  show "pm_agent_names w'' = pm_agent_names w" by (simp add: w'')
qed

theorem partial_exposes_remainder_witness:
  "PartialMultiAgentEnv_init duel_env constant_agent 0 [(''player_1'', 0)] = Inr duel_wrapper
   \<and> env_agent_names duel_env 0 = [''player_0'', ''player_1'']
   \<and> pm_agent_names duel_wrapper = [''player_0'']
   \<and> keys (pm_agents duel_wrapper) = [''player_1'']
   \<and> PartialMultiAgentEnv_reset duel_env duel_wrapper
       = Inr ([(''player_0'', 10)], duel_wrapper_ready)
   \<and> set (keys [(''player_0'', 10::nat)]) \<inter> set (keys (pm_agents duel_wrapper)) = {}
   \<and> PartialMultiAgentEnv_step duel_env constant_agent duel_wrapper_ready [(''player_0'', 2)]
       = Inr (([(''player_0'', 20)], [(''player_0'', Some 0)],
               [(''player_0'', True), (''__all__'', True)], [(''player_0'', [])]),
              duel_wrapper_stepped)
   \<and> set (keys [(''player_0'', True), (''__all__'', True)])
         \<inter> set (keys (pm_agents duel_wrapper_ready)) = {}
   \<and> keys (pm_agents duel_wrapper_stepped) = keys (pm_agents duel_wrapper_ready)"
proof -
  have i: "PartialMultiAgentEnv_init duel_env constant_agent 0 [(''player_1'', 0)]
             = Inr duel_wrapper"
    by code_simp
  have r: "PartialMultiAgentEnv_reset duel_env duel_wrapper
             = Inr ([(''player_0'', 10)], duel_wrapper_ready)"
    by code_simp
  have s: "PartialMultiAgentEnv_step duel_env constant_agent duel_wrapper_ready
             [(''player_0'', 2)]
           = Inr (([(''player_0'', 20)], [(''player_0'', Some 0)],
                   [(''player_0'', True), (''__all__'', True)], [(''player_0'', [])]),
                  duel_wrapper_stepped)"
    by code_simp
  have n: "env_agent_names duel_env 0 = [''player_0'', ''player_1'']"
    by (simp add: duel_env_def)
  from partial_exposes_remainder [where envc = duel_env and agc = constant_agent and env = 0
      and agents = "[(''player_1'', 0)]" and ?w0.0 = duel_wrapper and w = duel_wrapper
      and obs = "[(''player_0'', 10)]" and w' = duel_wrapper_ready]
    partial_exposes_remainder [where envc = duel_env and agc = constant_agent
      and w = duel_wrapper_ready and action_dict = "[(''player_0'', 2)]"
      and ?obs2.0 = "[(''player_0'', 20)]" and ?rew2.0 = "[(''player_0'', Some 0)]"
      and ?dn2.0 = "[(''player_0'', True), (''__all__'', True)]"
      and ?infs2.0 = "[(''player_0'', [])]" and w'' = duel_wrapper_stepped]
  show ?thesis
    by (simp add: i r s n keys_def)
qed

section \<open>The actions given to the base environment\<close>



section \<open>The single-agent adapter\<close>

text \<open>
  C7. When \<open>step\<close> of the adapter returns, its done flag is the disjunction of two entries of
  the done dictionary that \<open>step\<close> of the wrapped wrapper returned for the action under the
  agent's name: the agent's own flag and the flag under \<open>"__all__"\<close>. So it is true when the
  own flag is true and the overall one false, true when the own flag is false and the
  overall one true, and false only when both are false.
\<close>

theorem single_agent_step_done:
  fixes self :: "('e, 'g, 'o, 'r, 'i, 's) SingleAgentEnv"
  assumes "SingleAgentEnv_step envc agc self action = Inr ((ob, rw, dn, infs), self')"
  shows "\<exists>obs rews dones infos own overall.
           PartialMultiAgentEnv_step envc agc (sa_env self) [(sa_agent_name self, action)]
             = Inr ((obs, rews, dones, infos), sa_env self')
           \<and> map_of dones (sa_agent_name self) = Some own
           \<and> map_of dones ''__all__'' = Some overall
           \<and> dn = (own \<or> overall)
           \<and> (own \<and> \<not> overall \<longrightarrow> dn) \<and> (\<not> own \<and> overall \<longrightarrow> dn)
           \<and> (\<not> dn \<longleftrightarrow> \<not> own \<and> \<not> overall)"
  using assms
  by (auto simp: SingleAgentEnv_step_def Let_def dict_item_Inr split: sum.splits)

theorem single_agent_step_done_witness:
  "SingleAgentEnv_step solo_env constant_agent solo_single 3
     = Inr ((1, Some 1, True, []), solo_single\<lparr>sa_env := solo_wrapper\<lparr>pm_env := 1\<rparr>\<rparr>)
   \<and> PartialMultiAgentEnv_step solo_env constant_agent solo_wrapper [(''player_0'', 3)]
     = Inr (([(''player_0'', 1)], [(''player_0'', Some 1)],
             [(''player_0'', True), (''__all__'', False)], [(''player_0'', [])]),
            solo_wrapper\<lparr>pm_env := 1\<rparr>)"
proof -
  have s: "SingleAgentEnv_step solo_env constant_agent solo_single 3
     = Inr ((1, Some 1, True, []), solo_single\<lparr>sa_env := solo_wrapper\<lparr>pm_env := 1\<rparr>\<rparr>)"
    by code_simp
  have p: "PartialMultiAgentEnv_step solo_env constant_agent solo_wrapper [(''player_0'', 3)]
     = Inr (([(''player_0'', 1)], [(''player_0'', Some 1)],
             [(''player_0'', True), (''__all__'', False)], [(''player_0'', [])]),
            solo_wrapper\<lparr>pm_env := 1\<rparr>)"
    by code_simp
  from single_agent_step_done [OF s] s p show ?thesis by blast
qed

lemma partial_init_succeeds:
  "(\<exists>w. PartialMultiAgentEnv_init envc agc env agents = Inr w) \<longleftrightarrow>
     (\<exists>env1 agents1 obs env2.
        env_copy envc env = Inr env1 \<and> copy_agents agc agents = Inr agents1
        \<and> env_reset envc env1 = Inr (obs, env2)
        \<and> set (keys agents) \<subseteq> set (env_agent_names envc env))"
  by (auto simp: PartialMultiAgentEnv_init_def split: sum.splits)

lemma partial_reset_succeeds:
  fixes w :: "('e, 'g, 'o, 'r, 'i, 's) PartialMultiAgentEnv"
  shows "(\<exists>r. PartialMultiAgentEnv_reset envc w = Inr r) \<longleftrightarrow>
     (\<exists>obs env'. env_reset envc (pm_env w) = Inr (obs, env')
        \<and> (\<forall>name \<in> set (keys (pm_agents w)). map_of obs name \<noteq> None))"
proof -
  have sel: "(\<exists>cache. dict_select (fst (from_multiagent_step obs [] [] [])
                :: (string, ('o, 'r, 'i) StepOutcome) dict) names = Inr cache)
        \<longleftrightarrow> (\<forall>name \<in> set names. map_of obs name \<noteq> None)" for obs :: "(string, 'o) dict" and names
    by (simp add: dict_select_succeeds map_of_from_multiagent_step)
  show ?thesis
  proof (cases "env_reset envc (pm_env w)")
    case (Inl err)
    then show ?thesis by (simp add: PartialMultiAgentEnv_reset_def)
  next
    case (Inr r)
    obtain obs env' where r: "r = (obs, env')" by (cases r)
    show ?thesis
      using sel [of obs "keys (pm_agents w)"]
      by (auto simp: PartialMultiAgentEnv_reset_def Inr r Let_def split: sum.splits)
  qed
qed

text \<open>
  The wrapper built over \<open>turn_env\<close> with \<open>player_1\<close> delegated has exactly one remaining
  name, and narrowing it fails: the reset of the trial copy gives no observation to
  \<open>player_1\<close>.
\<close>

theorem narrowing_counterexample:
  "PartialMultiAgentEnv_init turn_env constant_agent 0 [(''player_1'', 0)] = Inr turn_wrapper
   \<and> length (pm_agent_names turn_wrapper) = 1
   \<and> as_single_agent turn_env constant_agent turn_wrapper = Inl (KeyError ''player_1'')"
  by code_simp

text \<open>
  C8, as the code has it. Narrowing a wrapper whose number of remaining names is not 1
  fails at once, and no adapter is built. With exactly one remaining name, narrowing
  succeeds if and only if the trial copy of the wrapper can be built and reset: the copy
  of the environment, the copies of the agents and the two resets of the copied environment
  return, every delegated name is among the \<open>agent_names\<close> of the wrapper's environment, and
  the second reset gives an observation to every delegated name. The adapter that is
  returned holds the wrapper it was given, under the one remaining name.
\<close>

theorem narrowing_precondition:
  fixes w :: "('e, 'g, 'o, 'r, 'i, 's) PartialMultiAgentEnv"
  shows
  "(length (pm_agent_names w) \<noteq> 1 \<longrightarrow> (\<exists>err. as_single_agent envc agc w = Inl err))
   \<and> (length (pm_agent_names w) = 1 \<longrightarrow>
        ((\<exists>s. as_single_agent envc agc w = Inr s) \<longleftrightarrow>
           (\<exists>env1 agents1 obs1 env2 obs2 env3.
              env_copy envc (pm_env w) = Inr env1
              \<and> copy_agents agc (pm_agents w) = Inr agents1
              \<and> env_reset envc env1 = Inr (obs1, env2)
              \<and> set (keys (pm_agents w)) \<subseteq> set (env_agent_names envc (pm_env w))
              \<and> env_reset envc env2 = Inr (obs2, env3)
              \<and> (\<forall>name \<in> set (keys (pm_agents w)). map_of obs2 name \<noteq> None))))
   \<and> (\<forall>s. as_single_agent envc agc w = Inr s \<longrightarrow>
          sa_env s = w \<and> pm_agent_names w = [sa_agent_name s])"
proof (intro conjI impI allI)
  assume "length (pm_agent_names w) \<noteq> 1"
  then show "\<exists>err. as_single_agent envc agc w = Inl err"
    by (simp add: as_single_agent_def SingleAgentEnv_init_def)
next
  assume one: "length (pm_agent_names w) = 1"
  let ?R = "\<exists>env1 agents1 obs1 env2 obs2 env3.
              env_copy envc (pm_env w) = Inr env1
              \<and> copy_agents agc (pm_agents w) = Inr agents1
              \<and> env_reset envc env1 = Inr (obs1, env2)
              \<and> set (keys (pm_agents w)) \<subseteq> set (env_agent_names envc (pm_env w))
              \<and> env_reset envc env2 = Inr (obs2, env3)
              \<and> (\<forall>name \<in> set (keys (pm_agents w)). map_of obs2 name \<noteq> None)"
  have ok: "(\<exists>s. as_single_agent envc agc w = Inr s) \<longleftrightarrow>
        (\<exists>c. PartialMultiAgentEnv_copy envc agc w = Inr c
           \<and> (\<exists>r. PartialMultiAgentEnv_reset envc c = Inr r))"
    using one
    by (auto simp: as_single_agent_def SingleAgentEnv_init_def split: sum.splits)
  show "(\<exists>s. as_single_agent envc agc w = Inr s) \<longleftrightarrow> ?R"
  proof
    assume "\<exists>s. as_single_agent envc agc w = Inr s"
    with ok obtain c where
      c: "PartialMultiAgentEnv_init envc agc (pm_env w) (pm_agents w) = Inr c"
      and r: "\<exists>r. PartialMultiAgentEnv_reset envc c = Inr r"
      by (auto simp: PartialMultiAgentEnv_copy_def)
    from partial_init_Inr [OF c] obtain env1 obs1 agents1 where
      i: "env_copy envc (pm_env w) = Inr env1" "copy_agents agc (pm_agents w) = Inr agents1"
        "env_reset envc env1 = Inr (obs1, pm_env c)"
        "set (keys (pm_agents w)) \<subseteq> set (env_agent_names envc (pm_env w))"
      and ags: "pm_agents c = agents1"
      by (metis PartialMultiAgentEnv.select_convs(2))
    have k: "keys (pm_agents c) = keys (pm_agents w)"
      using copy_agents_Inr [OF i(2)] by (simp add: ags)
    from r obtain obs2 env3 where
      "env_reset envc (pm_env c) = Inr (obs2, env3)"
      "\<forall>name \<in> set (keys (pm_agents w)). map_of obs2 name \<noteq> None"
      unfolding partial_reset_succeeds k by blast
    with i show ?R by blast
  next
    assume ?R
    then obtain env1 agents1 obs1 env2 obs2 env3 where
      i: "env_copy envc (pm_env w) = Inr env1" "copy_agents agc (pm_agents w) = Inr agents1"
        "env_reset envc env1 = Inr (obs1, env2)"
        "set (keys (pm_agents w)) \<subseteq> set (env_agent_names envc (pm_env w))"
      and r: "env_reset envc env2 = Inr (obs2, env3)"
        "\<forall>name \<in> set (keys (pm_agents w)). map_of obs2 name \<noteq> None"
      by blast
    from i obtain c where
      c: "PartialMultiAgentEnv_init envc agc (pm_env w) (pm_agents w) = Inr c"
      using partial_init_succeeds [of envc agc "pm_env w" "pm_agents w"] by blast
    from partial_init_Inr [OF c] i have e: "pm_env c = env2" and ags: "pm_agents c = agents1"
      by (auto, metis PartialMultiAgentEnv.select_convs(2))
    have k: "keys (pm_agents c) = keys (pm_agents w)"
      using copy_agents_Inr [OF i(2)] by (simp add: ags)
    have "\<exists>r. PartialMultiAgentEnv_reset envc c = Inr r"
      unfolding partial_reset_succeeds k e using r by blast
    with c ok show "\<exists>s. as_single_agent envc agc w = Inr s"
      by (auto simp: PartialMultiAgentEnv_copy_def)
  qed
next
  fix s
  assume a: "as_single_agent envc agc w = Inr s"
  then show "sa_env s = w"
    by (auto simp: as_single_agent_def SingleAgentEnv_init_def split: sum.splits if_splits)
  from a show "pm_agent_names w = [sa_agent_name s]"
    by (cases "pm_agent_names w")
      (auto simp: as_single_agent_def SingleAgentEnv_init_def split: sum.splits if_splits)
qed

theorem narrowing_precondition_witness:
  "length (pm_agent_names duel_undelegated) \<noteq> 1
   \<and> (\<exists>err. as_single_agent duel_env constant_agent duel_undelegated = Inl err)
   \<and> length (pm_agent_names duel_wrapper) = 1
   \<and> env_copy duel_env (pm_env duel_wrapper) = Inr 0
   \<and> copy_agents constant_agent (pm_agents duel_wrapper) = Inr [(''player_1'', 0)]
   \<and> env_reset duel_env 0 = Inr ([(''player_0'', 10), (''player_1'', 11)], 0)
   \<and> set (keys (pm_agents duel_wrapper)) \<subseteq> set (env_agent_names duel_env (pm_env duel_wrapper))
   \<and> keys (pm_agents duel_wrapper) = [''player_1'']
   \<and> map_of [(''player_0'', 10::nat), (''player_1'', 11)] ''player_1'' = Some 11
   \<and> as_single_agent duel_env constant_agent duel_wrapper
       = Inr \<lparr>sa_env = duel_wrapper, sa_observation_space = (), sa_action_space = (),
                sa_agent_name = ''player_0''\<rparr>
   \<and> pm_agent_names duel_wrapper = [''player_0'']"
proof -
  have two: "length (pm_agent_names duel_undelegated) \<noteq> 1"
    by (simp add: duel_undelegated_def)
  have one: "length (pm_agent_names duel_wrapper) = 1"
    by (simp add: duel_wrapper_def)
  have c: "env_copy duel_env (pm_env duel_wrapper) = Inr 0"
    and a: "copy_agents constant_agent (pm_agents duel_wrapper) = Inr [(''player_1'', 0)]"
    and r: "env_reset duel_env 0 = Inr ([(''player_0'', 10), (''player_1'', 11)], 0)"
    and k: "set (keys (pm_agents duel_wrapper))
              \<subseteq> set (env_agent_names duel_env (pm_env duel_wrapper))"
    and o: "\<forall>name \<in> set (keys (pm_agents duel_wrapper)).
              map_of [(''player_0'', 10::nat), (''player_1'', 11)] name \<noteq> None"
    by (simp_all add: duel_env_def duel_wrapper_def constant_agent_def keys_def)
  have s: "as_single_agent duel_env constant_agent duel_wrapper
       = Inr \<lparr>sa_env = duel_wrapper, sa_observation_space = (), sa_action_space = (),
                sa_agent_name = ''player_0''\<rparr>"
    by code_simp
  have n: "pm_agent_names duel_wrapper = [''player_0'']"
    by (simp add: duel_wrapper_def)
  from narrowing_precondition [of duel_undelegated duel_env constant_agent] two
  have f: "\<exists>err. as_single_agent duel_env constant_agent duel_undelegated = Inl err"
    by blast
  from narrowing_precondition [of duel_wrapper duel_env constant_agent] one c a r k o
  have "\<exists>s. as_single_agent duel_env constant_agent duel_wrapper = Inr s"
    by blast
  moreover have "keys (pm_agents duel_wrapper) = [''player_1'']"
    and "map_of [(''player_0'', 10::nat), (''player_1'', 11)] ''player_1'' = Some 11"
    by (simp_all add: duel_wrapper_def keys_def)
  ultimately show ?thesis
    using f two one c a r k s n by blast
qed

section \<open>One episode of the runner\<close>











section \<open>What an episode keeps true\<close>

lemma keys_Nil: "keys [] = []"
  by (simp add: keys_def)

lemma keys_Cons: "keys ((k, v) # d) = k # keys d"
  by (simp add: keys_def)

lemma map_of_in_keys: "map_of d k = Some v \<Longrightarrow> k \<in> set (keys d)"
  by (auto simp: keys_def dest: map_of_SomeD intro: rev_image_eqI)

lemma select_actions_keys:
  "select_actions agc agents actions calls outcomes = Inr (actions', agents', calls') \<Longrightarrow>
     keys agents' = keys agents \<and> set (keys outcomes) \<subseteq> set (keys agents)"
proof (induction outcomes arbitrary: agents actions calls)
  case Nil
  then show ?case by (simp add: keys_Nil)
next
  case (Cons p outcomes)
  obtain name outcome where p: "p = (name, outcome)" by (cases p)
  from Cons.prems obtain agent agent1 action where
    a: "map_of agents name = Some agent"
    and r: "select_actions agc (dict_setitem name agent1 agents) (dict_setitem name action actions)
       (calls @ [AgentAct name outcome]) outcomes = Inr (actions', agents', calls')"
    by (auto simp: p dict_item_Inr StepOutcome_iter_def split: sum.splits)
  have n: "name \<in> set (keys agents)"
    using a by (rule map_of_in_keys)
  from Cons.IH [OF r] n show ?case
    by (simp add: keys_dict_setitem_present [OF a] p keys_Cons)
qed

lemma final_acts_keys:
  "final_acts agc agents calls outcomes = Inr (agents', calls') \<Longrightarrow>
     keys agents' = keys agents \<and> set (keys outcomes) \<subseteq> set (keys agents)"
proof (induction outcomes arbitrary: agents calls)
  case Nil
  then show ?case by (simp add: keys_Nil)
next
  case (Cons p outcomes)
  obtain name outcome where p: "p = (name, outcome)" by (cases p)
  from Cons.prems obtain agent agent1 where
    a: "map_of agents name = Some agent"
    and r: "final_acts agc (dict_setitem name agent1 agents)
       (calls @ [AgentAct name outcome]) outcomes = Inr (agents', calls')"
    by (auto simp: p dict_item_Inr StepOutcome_iter_def split: sum.splits)
  have n: "name \<in> set (keys agents)"
    using a by (rule map_of_in_keys)
  from Cons.IH [OF r] n show ?case
    by (simp add: keys_dict_setitem_present [OF a] p keys_Cons)
qed

lemma distinct_dict_setitem:
  "distinct (keys d) \<Longrightarrow> distinct (keys (dict_setitem k v d))"
  by (simp add: keys_def dict_setitem_def distinct_update)

lemma accumulate_rewards_keys:
  "accumulate_rewards reward_sum outcomes = Inr reward_sum' \<Longrightarrow>
     set (keys reward_sum') = set (keys reward_sum) \<union> set (keys outcomes)
     \<and> (distinct (keys reward_sum) \<longrightarrow> distinct (keys reward_sum'))"
proof (induction outcomes arbitrary: reward_sum)
  case Nil
  then show ?case by (simp add: keys_Nil)
next
  case (Cons p outcomes)
  obtain name outcome where p: "p = (name, outcome)" by (cases p)
  from Cons.prems obtain r where
    "accumulate_rewards
       (dict_setitem name (fl (dict_get reward_sum name 0 + fl r)) reward_sum) outcomes
       = Inr reward_sum'"
    by (auto simp: p split: option.splits)
  from Cons.IH [OF this] show ?case
    by (auto simp: keys_dict_setitem distinct_dict_setitem p keys_Cons)
qed

lemma run_cycle_keys:
  assumes "run_cycle envc agc s = Inr s'"
  shows "keys (ep_agents s') = keys (ep_agents s)
    \<and> set (keys (ep_outcomes s)) \<subseteq> set (keys (ep_agents s))
    \<and> set (keys (ep_reward_sum s')) = set (keys (ep_reward_sum s)) \<union> set (keys (ep_outcomes s'))
    \<and> (distinct (keys (ep_reward_sum s)) \<longrightarrow> distinct (keys (ep_reward_sum s')))"
proof -
  from assms obtain actions agents' calls' outcomes dn env' c reward_sum' where
    sel: "select_actions agc (ep_agents s) [] (ep_calls s) (ep_outcomes s)
            = Inr (actions, agents', calls')"
    and acc: "accumulate_rewards (ep_reward_sum s) outcomes = Inr reward_sum'"
    and s': "s' = \<lparr>ep_env = env', ep_agents = agents', ep_outcomes = outcomes,
                   ep_done = dn, ep_reward_sum = reward_sum',
                   ep_step = Suc (ep_step s), ep_calls = calls' @ [c]\<rparr>"
    by (auto simp: run_cycle_def split: sum.splits)
  from select_actions_keys [OF sel] accumulate_rewards_keys [OF acc] show ?thesis
    by (simp add: s')
qed

lemma run_loop_inv_aux:
  assumes "run_loop envc agc max_step s = Some res"
  shows "\<forall>s'. res = Inr s' \<longrightarrow> episode_inv s \<longrightarrow>
        episode_inv s' \<and> keys (ep_agents s') = keys (ep_agents s)"
proof (rule run_loop.raw_induct [OF _ assms,
    where P = "\<lambda>envc agc max_step s res. \<forall>s'. res = Inr s' \<longrightarrow> episode_inv s \<longrightarrow>
        episode_inv s' \<and> keys (ep_agents s') = keys (ep_agents s)"], goal_cases)
  case (1 run_loop envc agc max_step s res)
  show ?case
  proof (cases "below_limit (ep_step s) max_step \<and> \<not> ep_done s")
    case False
    with 1(2) have "res = Inr s" by auto
    then show ?thesis by auto
  next
    case True
    show ?thesis
    proof (cases "run_cycle envc agc s")
      case (Inl err)
      with True 1(2) show ?thesis by auto
    next
      case (Inr s1)
      with True 1(2) have l: "run_loop envc agc max_step s1 = Some res" by simp
      from run_cycle_keys [OF Inr] have i: "episode_inv s \<Longrightarrow> episode_inv s1"
        and k: "keys (ep_agents s1) = keys (ep_agents s)"
        by (auto simp: episode_inv_def)
      from 1(1) [OF l] i k show ?thesis by simp
    qed
  qed
qed

lemma run_loop_inv:
  assumes "run_loop envc agc max_step s = Some (Inr s')" and "episode_inv s"
  shows "episode_inv s' \<and> keys (ep_agents s') = keys (ep_agents s)"
  using run_loop_inv_aux [OF assms(1)] assms(2) by simp

lemma reset_agents_keys:
  "reset_agents agc agents = Inr agents' \<Longrightarrow> keys agents' = keys agents"
proof (induction agents arbitrary: agents')
  case Nil
  then show ?case by simp
next
  case (Cons p agents)
  obtain name agent where p: "p = (name, agent)" by (cases p)
  from Cons.prems obtain agent1 rest where
    r: "reset_agents agc agents = Inr rest" and e: "agents' = (name, agent1) # rest"
    by (auto simp: p split: sum.splits)
  from Cons.IH [OF r] show ?case by (simp add: p e keys_Cons)
qed

lemma named_agents_keys:
  "named_agents single_agent agents = Inr agents1 \<Longrightarrow>
     keys agents1 = run_names agents
     \<and> (if length single_agent = 1 \<and> agents = [] then agents1 = [(san, single_agent ! 0)]
         else agents1 = agents \<and> agents \<noteq> [])"
  by (auto simp: named_agents_def run_names_def keys_def split: if_splits)

lemma run_once_rewards:
  fixes envc :: "('e, 'o, 'a, 'i, 's) env_class" and agc :: "('g, 'o, 'a, rat, 'i) Agent"
  assumes "run_once envc agc self single_agent agents = Some (Inr r)"
  shows "distinct (keys (ro_reward_sum r))
    \<and> set (keys (ro_reward_sum r)) \<subseteq> set (run_names agents)
    \<and> run_names (ro_agents r) = run_names agents
    \<and> keys (ro_agents r) = keys agents"
proof -
  from assms obtain agents1 agents2 outcomes dn env' s agents3 calls where
    n: "named_agents single_agent agents = Inr agents1"
    and ra: "reset_agents agc agents1 = Inr agents2"
    and loop: "run_loop envc agc (er_max_step self)
                 \<lparr>ep_env = env', ep_agents = agents2, ep_outcomes = outcomes,
                  ep_done = dn, ep_reward_sum = [], ep_step = 0,
                  ep_calls = map (\<lambda>(name, agent). AgentReset name) agents1 @ [EnvReset]\<rparr>
               = Some (Inr s)"
    and fa: "final_acts agc (ep_agents s) (ep_calls s) (ep_outcomes s) = Inr (agents3, calls)"
    and r: "r = \<lparr>ro_reward_sum = ep_reward_sum s,
                 ro_runner = self\<lparr>er_env := ep_env s\<rparr>,
                 ro_single_agent =
                   (if length single_agent = 1 \<and> agents = []
                    then map snd agents3 else single_agent),
                 ro_agents =
                   (if length single_agent = 1 \<and> agents = [] then [] else agents3),
                 ro_calls = calls\<rparr>"
    by (auto simp: run_once_def split: sum.splits option.splits)
  have "episode_inv \<lparr>ep_env = env', ep_agents = agents2, ep_outcomes = outcomes,
                  ep_done = dn, ep_reward_sum = [], ep_step = 0,
                  ep_calls = map (\<lambda>(name, agent). AgentReset name) agents1 @ [EnvReset]\<rparr>"
    by (simp add: episode_inv_def keys_Nil)
  from run_loop_inv [OF loop this] have inv: "episode_inv s"
    and k: "keys (ep_agents s) = keys agents2" by simp_all
  from final_acts_keys [OF fa] have k3: "keys agents3 = keys (ep_agents s)"
    and sub: "set (keys (ep_outcomes s)) \<subseteq> set (keys (ep_agents s))" by simp_all
  have k2: "keys agents2 = run_names agents"
    using reset_agents_keys [OF ra] named_agents_keys [OF n] by simp
  have d: "distinct (keys (ep_reward_sum s))"
    and s: "set (keys (ep_reward_sum s)) \<subseteq> set (run_names agents)"
    using inv sub by (auto simp: episode_inv_def k k2)
  have a: "run_names (ro_agents r) = run_names agents \<and> keys (ro_agents r) = keys agents"
  proof (cases "length single_agent = 1 \<and> agents = []")
    case True
    then show ?thesis by (simp add: r run_names_def)
  next
    case False
    with named_agents_keys [OF n] have ne: "agents \<noteq> []" by (auto split: if_splits)
    then have "run_names agents = keys agents" by (simp add: run_names_def)
    with k3 k k2 have e: "keys agents3 = keys agents" by simp
    with ne have "agents3 \<noteq> []" by (auto simp: keys_def)
    with False e ne show ?thesis by (simp add: r run_names_def)
  qed
  from d s a show ?thesis by (simp add: r)
qed

lemma episodes_rewards:
  fixes envc :: "('e, 'o, 'a, 'i, 's) env_class" and agc :: "('g, 'o, 'a, rat, 'i) Agent"
  assumes "episodes envc agc n (self, agent, agents) = Some (Inr (rs, st))"
  shows "length rs = n
    \<and> (\<forall>rewards \<in> set rs. distinct (keys rewards)
          \<and> set (keys rewards) \<subseteq> set (run_names agents))"
  using assms
proof (induction n arbitrary: self agent agents rs)
  case 0
  then show ?case by simp
next
  case (Suc n)
  from Suc.prems obtain r rs' where
    r: "run_once envc agc self agent agents = Some (Inr r)"
    and e: "episodes envc agc n (ro_runner r, ro_single_agent r, ro_agents r)
              = Some (Inr (rs', st))"
    and rs: "rs = ro_reward_sum r # rs'"
    by (auto split: option.splits sum.splits)
  from Suc.IH [OF e] run_once_rewards [OF r] show ?case
    by (simp add: rs)
qed

lemma run_cycle_gym:
  assumes "run_cycle (Gym g) agc s = Inr s'"
  shows "keys (ep_outcomes s') = [san]"
  using assms
  by (auto simp: run_cycle_def step_outcomes_def Let_def keys_def split: sum.splits)

lemma run_loop_gym_aux:
  assumes "run_loop envc agc max_step s = Some res"
  shows "\<forall>g s'. envc = Gym g \<longrightarrow> res = Inr s' \<longrightarrow> keys (ep_outcomes s) = [san] \<longrightarrow>
           keys (ep_outcomes s') = [san]"
proof (rule run_loop.raw_induct [OF _ assms,
    where P = "\<lambda>envc agc max_step s res. \<forall>g s'. envc = Gym g \<longrightarrow> res = Inr s' \<longrightarrow>
        keys (ep_outcomes s) = [san] \<longrightarrow> keys (ep_outcomes s') = [san]"], goal_cases)
  case (1 run_loop envc agc max_step s res)
  show ?case
  proof (cases "below_limit (ep_step s) max_step \<and> \<not> ep_done s")
    case False
    with 1(2) have "res = Inr s" by auto
    then show ?thesis by auto
  next
    case True
    show ?thesis
    proof (cases "run_cycle envc agc s")
      case (Inl err)
      with True 1(2) show ?thesis by auto
    next
      case (Inr s1)
      with True 1(2) have l: "run_loop envc agc max_step s1 = Some res" by simp
      have "keys (ep_outcomes s1) = [san]" if "envc = Gym g" for g
        using run_cycle_gym [of g agc s s1] Inr that by simp
      with 1(1) [OF l] show ?thesis by blast
    qed
  qed
qed

lemma run_once_gym:
  fixes envc :: "('e, 'o, 'a, 'i, 's) env_class" and agc :: "('g, 'o, 'a, rat, 'i) Agent"
  assumes "run_once envc agc self single_agent agents = Some (Inr r)" and "envc = Gym g"
  shows "san \<in> set (run_names agents)"
proof -
  from assms(1) obtain agents1 agents2 outcomes dn env' s agents3 calls where
    n: "named_agents single_agent agents = Inr agents1"
    and ra: "reset_agents agc agents1 = Inr agents2"
    and ro: "reset_outcomes envc (er_env self) = Inr (outcomes, dn, env')"
    and loop: "run_loop envc agc (er_max_step self)
                 \<lparr>ep_env = env', ep_agents = agents2, ep_outcomes = outcomes,
                  ep_done = dn, ep_reward_sum = [], ep_step = 0,
                  ep_calls = map (\<lambda>(name, agent). AgentReset name) agents1 @ [EnvReset]\<rparr>
               = Some (Inr s)"
    and fa: "final_acts agc (ep_agents s) (ep_calls s) (ep_outcomes s) = Inr (agents3, calls)"
    by (auto simp: run_once_def split: sum.splits option.splits)
  from ro have "keys outcomes = [san]"
    by (auto simp: reset_outcomes_def keys_def assms(2) split: sum.splits)
  with run_loop_gym_aux [OF loop] assms(2) have o: "keys (ep_outcomes s) = [san]" by simp
  have "episode_inv \<lparr>ep_env = env', ep_agents = agents2, ep_outcomes = outcomes,
                  ep_done = dn, ep_reward_sum = [], ep_step = 0,
                  ep_calls = map (\<lambda>(name, agent). AgentReset name) agents1 @ [EnvReset]\<rparr>"
    by (simp add: episode_inv_def keys_Nil)
  from run_loop_inv [OF loop this] have k: "keys (ep_agents s) = keys agents2" by simp
  from final_acts_keys [OF fa] o have "san \<in> set (keys (ep_agents s))" by simp
  then show ?thesis
    using reset_agents_keys [OF ra] named_agents_keys [OF n] by (simp add: k)
qed

lemma dict_setitem_distinct:
  "distinct (keys d) \<Longrightarrow> map_of d k = Some old \<Longrightarrow>
     dict_setitem k v d = map (\<lambda>(k', x). (k', if k' = k then v else x)) d"
proof (induction d)
  case Nil
  then show ?case by simp
next
  case (Cons p d)
  obtain k' x where p: "p = (k', x)" by (cases p)
  show ?case
  proof (cases "k' = k")
    case True
    with Cons.prems have "k \<notin> set (keys d)" by (simp add: p keys_Cons)
    then have "map (\<lambda>(k', x). (k', if k' = k then v else x)) d = d"
      by (induction d) (auto simp: keys_def)
    with True show ?thesis by (simp add: p dict_setitem_def)
  next
    case False
    with Cons.prems have "distinct (keys d)" and "map_of d k = Some old"
      by (simp_all add: p keys_Cons)
    from Cons.IH [OF this] False show ?thesis
      by (simp add: p dict_setitem_def)
  qed
qed

lemma map_of_absent: "k \<notin> set (keys d) \<Longrightarrow> map_of d k = None"
  by (induction d) (auto simp: keys_def)

lemma map_of_present: "k \<in> set (keys d) \<Longrightarrow> \<exists>v. map_of d k = Some v"
  by (induction d) (auto simp: keys_def)

lemma dict_get_absent: "k \<notin> set (keys d) \<Longrightarrow> dict_get d k x = x"
  by (simp add: dict_get_def map_of_absent)

lemma add_rewards_Inr:
  "distinct (keys sum_rewards) \<Longrightarrow> distinct (keys rewards) \<Longrightarrow>
   set (keys rewards) \<subseteq> set (keys sum_rewards) \<Longrightarrow>
     add_rewards sum_rewards rewards
       = Inr (map (\<lambda>(name, v). (name, reward_step name v rewards)) sum_rewards)"
proof (induction rewards arbitrary: sum_rewards)
  case Nil
  then show ?case by (simp add: reward_step_def)
next
  case (Cons p rewards)
  obtain n v where p: "p = (n, v)" by (cases p)
  from Cons.prems have fresh: "n \<notin> set (keys rewards)" and d: "distinct (keys rewards)"
    and sub: "set (keys rewards) \<subseteq> set (keys sum_rewards)"
    and mem: "n \<in> set (keys sum_rewards)"
    by (simp_all add: p keys_Cons)
  from map_of_present [OF mem] obtain old where old: "map_of sum_rewards n = Some old"
    by blast
  let ?sum1 = "dict_setitem n (fl (old + v)) sum_rewards"
  have k1: "keys ?sum1 = keys sum_rewards"
    by (rule keys_dict_setitem_present [OF old])
  have s1: "?sum1 = map (\<lambda>(k', x). (k', if k' = n then fl (old + v) else x)) sum_rewards"
    by (rule dict_setitem_distinct [OF Cons.prems(1) old])
  have "add_rewards sum_rewards (p # rewards) = add_rewards ?sum1 rewards"
    by (simp add: p dict_item_def old)
  also have "\<dots> = Inr (map (\<lambda>(name, x). (name, reward_step name x rewards)) ?sum1)"
    using Cons.prems(1) d sub by (intro Cons.IH) (simp_all add: k1)
  also have "map (\<lambda>(name, x). (name, reward_step name x rewards)) ?sum1
      = map (\<lambda>(name, x). (name, reward_step name x (p # rewards))) sum_rewards"
  proof -
    have "reward_step name (if name = n then fl (old + v) else x) rewards
            = reward_step name x (p # rewards)"
      if "(name, x) \<in> set sum_rewards" for name x
    proof (cases "name = n")
      case True
      with that old Cons.prems(1) have "x = old"
        by (simp add: keys_def)
      with True map_of_absent [OF fresh] show ?thesis
        by (simp add: p reward_step_def)
    next
      case False
      then show ?thesis by (simp add: p reward_step_def)
    qed
    then show ?thesis by (auto simp: s1)
  qed
  finally show ?case .
qed

lemma run_repetitions_episodes:
  fixes envc :: "('e, 'o, 'a, 'i, 's) env_class" and agc :: "('g, 'o, 'a, rat, 'i) Agent"
  assumes "episodes envc agc n (self, agent, agents) = Some (Inr (rs, self', agent', agents'))"
    and "distinct (keys sum_rewards)"
    and "set (run_names agents) \<subseteq> set (keys sum_rewards)"
  shows "\<exists>calls'. run_repetitions envc agc n (self, agent, agents, sum_rewards, calls)
           = Some (Inr (self', agent', agents',
                        map (\<lambda>(name, v). (name, foldl (reward_step name) v rs)) sum_rewards,
                        calls'))"
  using assms
proof (induction n arbitrary: self agent agents sum_rewards calls rs)
  case 0
  then show ?case by simp
next
  case (Suc n)
  from Suc.prems(1) obtain r rs' where
    r: "run_once envc agc self agent agents = Some (Inr r)"
    and e: "episodes envc agc n (ro_runner r, ro_single_agent r, ro_agents r)
              = Some (Inr (rs', self', agent', agents'))"
    and rs: "rs = ro_reward_sum r # rs'"
    by (auto split: option.splits sum.splits)
  note rr = run_once_rewards [OF r]
  let ?sum1 = "map (\<lambda>(name, v). (name, reward_step name v (ro_reward_sum r))) sum_rewards"
  have a: "add_rewards sum_rewards (ro_reward_sum r) = Inr ?sum1"
    using rr Suc.prems(2,3) by (intro add_rewards_Inr) auto
  have k1: "keys ?sum1 = keys sum_rewards" by (rule keys_map_value)
  from Suc.IH [OF e, of ?sum1 "calls @ ro_calls r"] rr Suc.prems(2,3) obtain calls' where
    "run_repetitions envc agc n
       (ro_runner r, ro_single_agent r, ro_agents r, ?sum1, calls @ ro_calls r)
     = Some (Inr (self', agent', agents',
                  map (\<lambda>(name, v). (name, foldl (reward_step name) v rs')) ?sum1, calls'))"
    by (auto simp: k1)
  moreover have "map (\<lambda>(name, v). (name, foldl (reward_step name) v rs')) ?sum1
      = map (\<lambda>(name, v). (name, foldl (reward_step name) v rs)) sum_rewards"
    by (simp add: rs case_prod_unfold)
  ultimately show ?case by (simp add: r a)
qed

section \<open>Averaging over the repetitions\<close>

text \<open>
  Rounding at work: small integers are floats; \<^verbatim>\<open>float(2**53 + 1)\<close> is \<open>2 ^ 53\<close> and
  \<^verbatim>\<open>float(2**53 + 3)\<close> is \<open>2 ^ 53 + 4\<close>, the even significand winning the tie; \<^verbatim>\<open>1 / 3\<close>
  is \<open>6004799503160661 / 2 ^ 54\<close>, and a float is left as it is.
\<close>

lemma fl_examples:
  "fl 0 = 0 \<and> fl 1 = 1 \<and> fl (- 3) = - 3 \<and> fl (1 / 2) = 1 / 2
   \<and> fl 9007199254740993 = 9007199254740992
   \<and> fl 9007199254740995 = 9007199254740996
   \<and> fl (1 / 3) = 6004799503160661 / 18014398509481984
   \<and> fl (6004799503160661 / 18014398509481984) = 6004799503160661 / 18014398509481984
   \<and> fl (fl (1 / 10) + fl (2 / 10)) = 5404319552844596 / 18014398509481984
   \<and> fl (3 / 10) = 5404319552844595 / 18014398509481984"
  by code_simp

lemma float_total_constant:
  assumes "\<forall>rewards \<in> set rs. dict_get rewards name 0 = x"
    and "\<forall>j. 1 \<le> j \<and> j \<le> i + length rs \<longrightarrow> fl (of_nat j * x) = of_nat j * x"
  shows "foldl (reward_step name) (of_nat i * x) rs = of_nat (i + length rs) * x"
  using assms
proof (induction rs arbitrary: i)
  case Nil
  then show ?case by simp
next
  case (Cons rewards rs)
  from Cons.prems(1) have x: "dict_get rewards name 0 = x"
    and c: "\<forall>rewards \<in> set rs. dict_get rewards name 0 = x"
    by simp_all
  have "1 \<le> Suc i \<and> Suc i \<le> i + length (rewards # rs)" by simp
  with Cons.prems(2) have f: "fl (of_nat (Suc i) * x) = of_nat (Suc i) * x" by blast
  from Cons.prems(2)
  have h: "\<forall>j. 1 \<le> j \<and> j \<le> Suc i + length rs \<longrightarrow> fl (of_nat j * x) = of_nat j * x"
    by simp
  have "reward_step name (of_nat i * x) rewards = of_nat (Suc i) * x"
  proof (cases "map_of rewards name")
    case None
    with x have "x = 0" by (simp add: dict_get_def)
    with None show ?thesis by (simp add: reward_step_def)
  next
    case (Some v)
    with x have "v = x" by (simp add: dict_get_def)
    with Some f show ?thesis by (simp add: reward_step_def algebra_simps)
  qed
  with Cons.IH [OF c h] show ?case by simp
qed

lemma float_mean_constant:
  assumes "0 < length rs" and "\<forall>rewards \<in> set rs. dict_get rewards name 0 = x"
    and "\<forall>j. 1 \<le> j \<and> j \<le> length rs \<longrightarrow> fl (of_nat j * x) = of_nat j * x"
    and "fl (of_nat (length rs)) = of_nat (length rs)"
  shows "float_mean rs (length rs) name = x"
proof -
  from float_total_constant [of rs name x 0] assms(2,3)
  have "float_total rs name = of_nat (length rs) * x"
    by (simp add: float_total_def)
  moreover have "fl x = x"
  proof -
    from assms(1) have "1 \<le> (1::nat) \<and> 1 \<le> length rs" by (cases rs) simp_all
    with assms(3) have "fl (of_nat 1 * x) = of_nat 1 * x" by blast
    then show ?thesis by simp
  qed
  ultimately show ?thesis using assms(1,4) by (simp add: float_mean_def)
qed

lemma map_of_names:
  "name \<in> set names \<Longrightarrow> map_of (map (\<lambda>name. (name, f name)) names) name = Some (f name)"
  by (induction names) auto

text \<open>
  C5. As stated the claim is false: the sums and the mean are floats, and the mean of
  \<open>k\<close> equal rewards need not be that reward. \<open>tenth_env\<close> gives its one participant the
  reward \<open>float_tenth\<close>, which Python writes \<^verbatim>\<open>0.1\<close>, in each of the three episodes of
  \<open>tenth_runner\<close>; \<open>run\<close> returns for it \<open>7205759403792795 / 72057594037927936\<close>, which
  Python writes \<^verbatim>\<open>0.10000000000000002\<close>.
\<close>

theorem run_average_counterexample:
  "fl (1 / 10) = float_tenth
   \<and> episodes (Multi tenth_env) constant_agent 3 (tenth_runner, [], [(''player_0'', 0)])
       = Some (Inr ([tenth_rewards, tenth_rewards, tenth_rewards],
                    tenth_runner\<lparr>er_env := 1\<rparr>, [], [(''player_0'', 0)]))
   \<and> dict_get tenth_rewards ''player_0'' 0 = float_tenth
   \<and> map_option (map_sum id fst)
        (run (Multi tenth_env) constant_agent tenth_runner [] [(''player_0'', 0)])
       = Some (Inr (Mapping [(''player_0'', 7205759403792795 / 72057594037927936)]))
   \<and> 7205759403792795 / 72057594037927936 \<noteq> float_tenth"
  by code_simp

text \<open>
  C5, amended. Let the repetition count be \<open>k \<ge> 1\<close>, and let \<open>k\<close> episodes, executed one
  after the other on the runner and the agents, return the reward dictionaries \<open>rs\<close>. Then
  \<open>rs\<close> has \<open>k\<close> entries and \<open>run\<close> returns, leaving the runner and the agents as the last
  episode left them: for a classic environment it returns the number obtained by summing
  the rewards of \<open>san\<close> over the episodes and dividing by \<open>k\<close>, otherwise the dictionary
  that gives every name the sum of its rewards over the episodes divided by \<open>k\<close>; the sum
  and the quotient are those of floats. When every episode gives every name \<open>name\<close> the
  reward \<open>r name\<close>, the result is exactly \<open>r\<close> provided that \<open>k\<close> and the multiples
  \<open>j * r name\<close>, for \<open>1 \<le> j \<le> k\<close>, are floats. (The named agents are a dictionary: their
  names are distinct.)
\<close>

theorem run_average:
  fixes envc :: "('e, 'o, 'a, 'i, 's) env_class" and agc :: "('g, 'o, 'a, rat, 'i) Agent"
  assumes "0 < k" and "er_num_repetitions self = int k" and "distinct (keys agents)"
    and "episodes envc agc k (self, agent, agents) = Some (Inr (rs, self', agent', agents'))"
  shows "length rs = k
    \<and> (\<exists>calls. run envc agc self agent agents
          = Some (Inr (averaged_result envc (run_names agents) (float_mean rs k),
                       self', agent', agents', calls)))
    \<and> ((\<forall>rewards \<in> set rs. \<forall>name \<in> set (run_names agents). dict_get rewards name 0 = r name)
        \<and> (\<forall>name \<in> set (run_names agents). \<forall>j. 1 \<le> j \<and> j \<le> k
              \<longrightarrow> fl (of_nat j * r name) = of_nat j * r name)
        \<and> fl (of_nat k) = of_nat k
         \<longrightarrow> averaged_result envc (run_names agents) (float_mean rs k)
               = averaged_result envc (run_names agents) r)"
proof -
  let ?names = "run_names agents"
  let ?sum0 = "if agents \<noteq> [] then map (\<lambda>(name, a). (name, 0::rat)) agents else [(san, 0)]"
  let ?mean = "float_mean rs k"
  note er = episodes_rewards [OF assms(4)]
  have len: "length rs = k" using er by simp
  have k0: "keys ?sum0 = ?names"
    by (simp add: run_names_def keys_def case_prod_unfold comp_def)
  have d0: "distinct (keys ?sum0)"
    unfolding k0 using assms(3) by (simp add: run_names_def)
  have s0: "?sum0 = map (\<lambda>name. (name, 0)) ?names"
    by (simp add: run_names_def keys_def case_prod_unfold comp_def)
  from run_repetitions_episodes [OF assms(4) d0, of "[]"] obtain calls where
    rep: "run_repetitions envc agc k (self, agent, agents, ?sum0, [])
            = Some (Inr (self', agent', agents',
                         map (\<lambda>(name, v). (name, foldl (reward_step name) v rs)) ?sum0, calls))"
    unfolding k0 by blast
  have sF: "map (\<lambda>(name, v). (name, foldl (reward_step name) v rs)) ?sum0
              = map (\<lambda>name. (name, float_total rs name)) ?names"
    unfolding s0 by (simp add: comp_def float_total_def)
  have mean: "mean_rewards (map (\<lambda>name. (name, float_total rs name)) ?names) (int k)
                = Inr (map (\<lambda>name. (name, ?mean name)) ?names)"
    using assms(1) by (simp add: mean_rewards_def comp_def float_mean_def)
  have gym: "san \<in> set ?names" if "envc = Gym g" for g
  proof -
    from assms(1) obtain n where "k = Suc n" by (cases k) auto
    with assms(4) obtain r0 where "run_once envc agc self agent agents = Some (Inr r0)"
      by (auto split: option.splits sum.splits)
    from run_once_gym [OF this that] show ?thesis .
  qed
  have run: "run envc agc self agent agents
          = Some (Inr (averaged_result envc ?names ?mean, self', agent', agents', calls))"
  proof (cases envc)
    case (Gym g)
    from map_of_names [OF gym [OF Gym], of ?mean]
    have "dict_item (map (\<lambda>name. (name, ?mean name)) ?names) san = Inr (?mean san)"
      by (simp add: dict_item_def)
    then show ?thesis
      unfolding run_def Let_def assms(2) nat_int rep sF option.case sum.case prod.case mean
      by (simp add: Gym averaged_result_def)
  next
    case (Multi m)
    show ?thesis
      unfolding run_def Let_def assms(2) nat_int rep sF option.case sum.case prod.case mean
      by (simp add: Multi averaged_result_def)
  qed
  have exact: "averaged_result envc ?names ?mean = averaged_result envc ?names r"
    if c: "\<forall>rewards \<in> set rs. \<forall>name \<in> set ?names. dict_get rewards name 0 = r name"
      and f: "\<forall>name \<in> set ?names. \<forall>j. 1 \<le> j \<and> j \<le> k
                \<longrightarrow> fl (of_nat j * r name) = of_nat j * r name"
      and fk: "fl (of_nat k) = of_nat k"
  proof -
    have m: "?mean name = r name" if "name \<in> set ?names" for name
    proof -
      from c that have "\<forall>rewards \<in> set rs. dict_get rewards name 0 = r name" by blast
      moreover from f that
      have "\<forall>j. 1 \<le> j \<and> j \<le> length rs \<longrightarrow> fl (of_nat j * r name) = of_nat j * r name"
        unfolding len by blast
      ultimately show ?thesis
        using float_mean_constant [of rs name "r name"] assms(1) fk by (simp add: len)
    qed
    show ?thesis
    proof (cases envc)
      case (Gym g)
      with m [OF gym [OF Gym]] show ?thesis by (simp add: averaged_result_def)
    next
      case (Multi m')
      with m show ?thesis by (simp add: averaged_result_def)
    qed
  qed
  from len run exact show ?thesis by blast
qed

theorem run_average_witness:
  "0 < (3::nat) \<and> er_num_repetitions duel_runner = int 3 \<and> distinct (keys duel_agents)
   \<and> episodes (Multi duel_env) constant_agent 3 (duel_runner, [], duel_agents)
       = Some (Inr ([duel_rewards, duel_rewards, duel_rewards],
                    duel_runner\<lparr>er_env := 1\<rparr>, [], duel_agents))
   \<and> run_names duel_agents = [''player_1'', ''player_0'']
   \<and> dict_get duel_rewards ''player_1'' 0 = duel_mean ''player_1''
   \<and> dict_get duel_rewards ''player_0'' 0 = duel_mean ''player_0''
   \<and> fl 0 = 0 \<and> fl 1 = 1 \<and> fl 2 = 2 \<and> fl 3 = 3
   \<and> (\<exists>calls. run (Multi duel_env) constant_agent duel_runner [] duel_agents
         = Some (Inr (Mapping [(''player_1'', 1), (''player_0'', 0)],
                      duel_runner\<lparr>er_env := 1\<rparr>, [], duel_agents, calls)))
   \<and> er_num_repetitions duel_single_runner = int 1
   \<and> episodes duel_gym constant_agent 1 (duel_single_runner, [2], [])
       = Some (Inr ([[(san, 0)]], duel_single_runner\<lparr>er_env := duel_single_played\<rparr>, [2], []))
   \<and> (\<exists>calls. run duel_gym constant_agent duel_single_runner [2] []
         = Some (Inr (Scalar 0, duel_single_runner\<lparr>er_env := duel_single_played\<rparr>, [2], [],
                      calls)))"
proof -
  have k: "0 < (3::nat)" by simp
  have n: "er_num_repetitions duel_runner = int 3" by (simp add: duel_runner_def)
  have d: "distinct (keys duel_agents)" by (simp add: duel_agents_def keys_def)
  have e: "episodes (Multi duel_env) constant_agent 3 (duel_runner, [], duel_agents)
       = Some (Inr ([duel_rewards, duel_rewards, duel_rewards],
                    duel_runner\<lparr>er_env := 1\<rparr>, [], duel_agents))"
    by code_simp
  have names: "run_names duel_agents = [''player_1'', ''player_0'']"
    by (simp add: run_names_def duel_agents_def keys_def)
  have r1: "dict_get duel_rewards ''player_1'' 0 = duel_mean ''player_1''"
    and r0: "dict_get duel_rewards ''player_0'' 0 = duel_mean ''player_0''"
    by (simp_all add: dict_get_def duel_rewards_def duel_mean_def)
  have f0: "fl 0 = 0" and f1: "fl 1 = 1" and f2: "fl 2 = 2" and f3: "fl 3 = 3"
    by code_simp+
  have c: "\<forall>rewards \<in> set [duel_rewards, duel_rewards, duel_rewards].
             \<forall>name \<in> set (run_names duel_agents). dict_get rewards name 0 = duel_mean name"
    using r1 r0 by (simp add: names)
  have "fl (of_nat j * duel_mean name) = of_nat j * duel_mean name"
    if "1 \<le> j \<and> j \<le> (3::nat)" for j name
  proof -
    from that have "j = 1 \<or> j = 2 \<or> j = 3" by arith
    then show ?thesis using f0 f1 f2 f3 by (auto simp: duel_mean_def)
  qed
  then have f: "\<forall>name \<in> set (run_names duel_agents). \<forall>j. 1 \<le> j \<and> j \<le> (3::nat)
             \<longrightarrow> fl (of_nat j * duel_mean name) = of_nat j * duel_mean name"
    by blast
  have fk: "fl (of_nat 3) = of_nat 3" using f3 by simp
  have m: "averaged_result (Multi duel_env) (run_names duel_agents) duel_mean
             = Mapping [(''player_1'', 1), (''player_0'', 0)]"
    by (simp add: averaged_result_def names duel_mean_def)
  note ra = run_average [OF k n d e, of duel_mean]
  from ra c f fk have eq:
    "averaged_result (Multi duel_env) (run_names duel_agents)
       (float_mean [duel_rewards, duel_rewards, duel_rewards] 3)
     = averaged_result (Multi duel_env) (run_names duel_agents) duel_mean"
    by blast
  from ra obtain calls where
    "run (Multi duel_env) constant_agent duel_runner [] duel_agents
       = Some (Inr (averaged_result (Multi duel_env) (run_names duel_agents)
                      (float_mean [duel_rewards, duel_rewards, duel_rewards] 3),
                    duel_runner\<lparr>er_env := 1\<rparr>, [], duel_agents, calls))"
    by blast
  then have "run (Multi duel_env) constant_agent duel_runner [] duel_agents
         = Some (Inr (Mapping [(''player_1'', 1), (''player_0'', 0)],
                      duel_runner\<lparr>er_env := 1\<rparr>, [], duel_agents, calls))"
    unfolding eq m .
  then have "\<exists>calls. run (Multi duel_env) constant_agent duel_runner [] duel_agents
         = Some (Inr (Mapping [(''player_1'', 1), (''player_0'', 0)],
                      duel_runner\<lparr>er_env := 1\<rparr>, [], duel_agents, calls))"
    by blast
  moreover have n1: "er_num_repetitions duel_single_runner = int 1"
    by (simp add: duel_single_runner_def)
  moreover have e1: "episodes duel_gym constant_agent 1 (duel_single_runner, [2], [])
       = Some (Inr ([[(san, 0)]], duel_single_runner\<lparr>er_env := duel_single_played\<rparr>, [2], []))"
    by code_simp
  moreover have "\<exists>calls. run duel_gym constant_agent duel_single_runner [2] []
         = Some (Inr (Scalar 0, duel_single_runner\<lparr>er_env := duel_single_played\<rparr>, [2], [],
                      calls))"
  proof -
    have k1: "0 < (1::nat)" by simp
    have d1: "distinct (keys ([] :: (string, nat) dict))" by (simp add: keys_def)
    note rg = run_average [OF k1 n1 d1 e1, of "\<lambda>name. 0"]
    have c1: "\<forall>rewards \<in> set [[(san, 0::rat)]].
               \<forall>name \<in> set (run_names ([] :: (string, nat) dict)). dict_get rewards name 0 = 0"
      by (simp add: run_names_def dict_get_def)
    have g1: "\<forall>name \<in> set (run_names ([] :: (string, nat) dict)). \<forall>j. 1 \<le> j \<and> j \<le> (1::nat)
               \<longrightarrow> fl (of_nat j * 0) = of_nat j * 0"
      using f0 by simp
    have gk: "fl (of_nat 1) = of_nat 1" using f1 by simp
    from rg c1 g1 gk have eq1:
      "averaged_result duel_gym (run_names ([] :: (string, nat) dict))
         (float_mean [[(san, 0)]] 1)
       = averaged_result duel_gym (run_names ([] :: (string, nat) dict)) (\<lambda>name. 0)"
      by blast
    have m1: "averaged_result duel_gym (run_names ([] :: (string, nat) dict)) (\<lambda>name. 0)
                = Scalar 0"
      by (simp add: averaged_result_def duel_gym_def)
    from rg obtain calls where
      "run duel_gym constant_agent duel_single_runner [2] []
         = Some (Inr (averaged_result duel_gym (run_names ([] :: (string, nat) dict))
                        (float_mean [[(san, 0)]] 1),
                      duel_single_runner\<lparr>er_env := duel_single_played\<rparr>, [2], [], calls))"
      by blast
    then have "run duel_gym constant_agent duel_single_runner [2] []
         = Some (Inr (Scalar 0, duel_single_runner\<lparr>er_env := duel_single_played\<rparr>, [2], [],
                      calls))"
      unfolding eq1 m1 .
    then show ?thesis by blast
  qed
  ultimately show ?thesis using k n d e names r1 r0 f0 f1 f2 f3 by blast
qed
end
